theory Spec2Isabelle
  imports Main "HOL-Library.Finite_Map" "HOL-Library.Char_ord" "HOL-Library.List_Lexorder"
begin

section \<open>Python values and exceptions\<close>

text \<open>
  The decoders and the differencing engine are Python 2 code over dynamically typed
  values. A value is \<open>None\<close>, an integer (\<open>int\<close>/\<open>long\<close>, unbounded; the booleans
  are the integers 0 and 1 for every operation used here), a byte string, a list or a
  dictionary with string keys. Floating-point values are outside the model.
\<close>

datatype pyval =
  VNone
| VInt int
| VStr string
| VList "pyval list"
| VDict "(string, pyval) fmap"

text \<open>Every \<open>raise\<close> of the source, and every exception of a built-in it calls.\<close>

datatype error =
  KeyError
| TypeError
| IndexError
| AttributeError
| StructError
| CuckooResultError
| ExternalError

type_synonym pydict = "(string, pyval) fmap"

text \<open>\<open>d[k]\<close>: a missing key raises \<open>KeyError\<close>.\<close>

definition getitem :: "pydict \<Rightarrow> string \<Rightarrow> error + pyval" where
  "getitem d k = (case fmlookup d k of None \<Rightarrow> Inl KeyError | Some v \<Rightarrow> Inr v)"

section \<open>Argument normalizer (netlog.py, lines 236-247)\<close>

text \<open>
  \<^verbatim>\<open>
  def default_converter(v):
      # fix signed ints (bson is kind of limited there)
      if type(v) in (int, long) and v < 0:
          return v + 0x100000000
      return v
  \<close>
\<close>

fun default_converter :: "pyval \<Rightarrow> pyval" where
  "default_converter (VInt v) = (if v < 0 then VInt (v + 0x100000000) else VInt v)"
| "default_converter v = v"

text \<open>
  Python's \<open>"%08x" % n\<close>: lower-case hexadecimal digits, zero-padded to a minimum
  field width of eight characters; a negative number prints a sign, which counts for
  the width.
\<close>

definition hex_digit :: "nat \<Rightarrow> char" where
  "hex_digit d = ''0123456789abcdef'' ! (d mod 16)"

function hex_digits :: "nat \<Rightarrow> string" where
  "hex_digits n = (if n < 16 then [hex_digit n] else hex_digits (n div 16) @ [hex_digit n])"
  by pat_completeness auto
termination
  by (relation "measure (\<lambda>n. n)") auto

declare hex_digits.simps [simp del]

definition zero_pad :: "nat \<Rightarrow> string \<Rightarrow> string" where
  "zero_pad w s = replicate (w - length s) (CHR ''0'') @ s"

definition format_08x :: "int \<Rightarrow> string" where
  "format_08x n =
     (if n < 0 then CHR ''-'' # zero_pad 7 (hex_digits (nat (- n)))
      else zero_pad 8 (hex_digits (nat n)))"

text \<open>
  \<^verbatim>\<open>
  TYPECONVERTERS = {
      "p": lambda v: "0x%08x" % default_converter(v),
  }
  \<close>
  \<open>%x\<close> applied to anything but a number raises \<open>TypeError\<close>.
\<close>

definition pointer_converter :: "pyval \<Rightarrow> error + pyval" where
  "pointer_converter v =
     (case default_converter v of
        VInt n \<Rightarrow> Inr (VStr (''0x'' @ format_08x n))
      | _ \<Rightarrow> Inl TypeError)"




section \<open>Snapshot facet resolver (memoryanalysis.py, lines 92-99)\<close>

text \<open>
  \<^verbatim>\<open>
  def run_dependencies(self, results, dependencies, **attrs):
      for dep in dependencies:
          if not results.has_key(dep):
              results[dep] = getattr(self.vol_manager, dep)(**attrs)
      return results
  \<close>
  The forensic primitives behind \<open>self.vol_manager\<close> are external: \<open>vm dep st\<close> is
  the call \<open>getattr(self.vol_manager, dep)(**attrs)\<close> in the manager's state \<open>st\<close>; it
  returns the facet or raises, and leaves a new state. The list \<open>calls\<close> records, in
  order, the names of the computations that were invoked. An exception leaves the
  function at once.
\<close>

type_synonym ('v, 's) vol_manager = "string \<Rightarrow> 's \<Rightarrow> (error + 'v) \<times> 's"

fun run_dependencies ::
  "('v, 's) vol_manager \<Rightarrow> (string \<rightharpoonup> 'v) \<times> 's \<times> string list \<Rightarrow> string list
     \<Rightarrow> error + ((string \<rightharpoonup> 'v) \<times> 's \<times> string list)" where
  "run_dependencies vm (results, st, calls) [] = Inr (results, st, calls)"
| "run_dependencies vm (results, st, calls) (dep # deps) =
     (case results dep of
        Some _ \<Rightarrow> run_dependencies vm (results, st, calls) deps
      | None \<Rightarrow>
          (case vm dep st of
             (Inl e, _) \<Rightarrow> Inl e
           | (Inr v, st') \<Rightarrow> run_dependencies vm (results(dep \<mapsto> v), st', calls @ [dep]) deps))"

text \<open>A stand-in manager for the worked example: every plugin succeeds and counts the calls.\<close>

definition demo_vm :: "(nat, nat) vol_manager" where
  "demo_vm dep st = (Inr (st + 6), Suc st)"

section \<open>Legacy decoder: field readers (netlog.py, lines 172-203)\<close>

text \<open>
  Modelled from the spec: the Byte Source \<open>handler.read(n)\<close>, which is not part of the
  decoder. It hands out the next \<open>n\<close> bytes of the stream, fewer when the stream ends
  first. The stream is the list of bytes still to come; a byte is a \<open>char\<close>.
\<close>

definition read :: "nat \<Rightarrow> string \<Rightarrow> string \<times> string" where
  "read n stream = (take n stream, drop n stream)"

text \<open>
  \<open>struct.unpack("I", b)\<close> and \<open>struct.unpack("II", b)\<close>: unsigned 32-bit integers,
  least significant byte first (the byte order of the x86 hosts the analysis runs on); a
  buffer of the wrong size raises \<open>struct.error\<close>.
\<close>

definition le_nat :: "string \<Rightarrow> nat" where
  "le_nat bs = foldr (\<lambda>b acc. of_char b + 256 * acc) bs 0"

definition unpack_I :: "string \<Rightarrow> error + nat" where
  "unpack_I b = (if length b = 4 then Inr (le_nat b) else Inl StructError)"

definition unpack_II :: "string \<Rightarrow> error + nat \<times> nat" where
  "unpack_II b =
     (if length b = 8 then Inr (le_nat (take 4 b), le_nat (drop 4 b)) else Inl StructError)"

text \<open>
  \<^verbatim>\<open>
  def read_string(self):
      length, maxlength = struct.unpack("II", self.handler.read(8))
      if length < 0 or length > 0x10000:
          log.critical(...)
          raise CuckooResultError("read_string length failure, protocol broken?")
      s = self.handler.read(length)
      if maxlength > length:
          s += "... (truncated)"
      return s
  \<close>
  Each reader returns its result, or the exception it raised, and the stream it left.
\<close>

definition read_string :: "string \<Rightarrow> (error + string) \<times> string" where
  "read_string stream =
     (let (hdr, stream1) = read 8 stream in
      case unpack_II hdr of
        Inl e \<Rightarrow> (Inl e, stream1)
      | Inr (len, maxlength) \<Rightarrow>
          if int len < 0 \<or> len > 0x10000 then (Inl CuckooResultError, stream1)
          else
            (let (s, stream2) = read len stream1 in
             (Inr (if maxlength > len then s @ ''... (truncated)'' else s), stream2)))"

text \<open>
  \<^verbatim>\<open>
  def read_buffer(self):
      length, maxlength = struct.unpack("II", self.handler.read(8))
      # only return the maxlength, as we don't log the actual
      # buffer right now
      buf = self.handler.read(length)
      if maxlength > length:
          buf += " ... (truncated)"
      return buf
  \<close>
\<close>

definition read_buffer :: "string \<Rightarrow> (error + string) \<times> string" where
  "read_buffer stream =
     (let (hdr, stream1) = read 8 stream in
      case unpack_II hdr of
        Inl e \<Rightarrow> (Inl e, stream1)
      | Inr (len, maxlength) \<Rightarrow>
          (let (buf, stream2) = read len stream1 in
           (Inr (if maxlength > len then buf @ '' ... (truncated)'' else buf), stream2)))"


text \<open>
  A buffer field whose header declares \<open>0x10001\<close> bytes (and the same maximum length),
  followed by that many bytes.
\<close>

definition oversized_header :: string where
  "oversized_header = [CHR 0x01, CHR 0x00, CHR 0x01, CHR 0x00, CHR 0x01, CHR 0x00, CHR 0x01, CHR 0x00]"

definition oversized_payload :: string where
  "oversized_payload = replicate 65537 (CHR ''A'')"

section \<open>Built-in operations on Python values\<close>

text \<open>
  Only the values that can be hashed can be a dictionary key or a member of a set:
  lists and dictionaries cannot, and using one raises \<open>TypeError\<close>.
\<close>

fun hashable :: "pyval \<Rightarrow> bool" where
  "hashable (VList _) = False"
| "hashable (VDict _) = False"
| "hashable _ = True"

text \<open>Truth value testing (\<open>if not category\<close>).\<close>

fun truthy :: "pyval \<Rightarrow> bool" where
  "truthy VNone = False"
| "truthy (VInt n) = (n \<noteq> 0)"
| "truthy (VStr s) = (s \<noteq> [])"
| "truthy (VList xs) = (xs \<noteq> [])"
| "truthy (VDict d) = (d \<noteq> fmempty)"

text \<open>\<open>d.get(k, default)\<close>\<close>

definition dict_get :: "pydict \<Rightarrow> string \<Rightarrow> pyval \<Rightarrow> pyval" where
  "dict_get d k dflt = (case fmlookup d k of None \<Rightarrow> dflt | Some v \<Rightarrow> v)"

text \<open>\<open>len(v)\<close>\<close>

fun py_len :: "pyval \<Rightarrow> error + nat" where
  "py_len (VStr s) = Inr (length s)"
| "py_len (VList xs) = Inr (length xs)"
| "py_len (VDict d) = Inr (fcard (fmdom d))"
| "py_len _ = Inl TypeError"

text \<open>
  \<open>v[i]\<close> for a natural number \<open>i\<close>. The keys of a decoded document are strings, so an
  integer is never among them.
\<close>

fun py_index :: "pyval \<Rightarrow> nat \<Rightarrow> error + pyval" where
  "py_index (VList xs) i = (if i < length xs then Inr (xs ! i) else Inl IndexError)"
| "py_index (VStr s) i = (if i < length s then Inr (VStr [s ! i]) else Inl IndexError)"
| "py_index (VDict d) i = Inl KeyError"
| "py_index _ i = Inl TypeError"

text \<open>
  \<open>for i in v\<close>: the elements of a list, the characters of a string, the keys of a
  dictionary. Python leaves the order of the keys open; the model takes them sorted.
\<close>

fun py_iter :: "pyval \<Rightarrow> error + pyval list" where
  "py_iter (VList xs) = Inr xs"
| "py_iter (VStr s) = Inr (map (\<lambda>c. VStr [c]) s)"
| "py_iter (VDict d) = Inr (map VStr (sorted_list_of_fset (fmdom d)))"
| "py_iter _ = Inl TypeError"

text \<open>Running a function that may raise over a list, left to right, up to the first exception.\<close>

fun map_result :: "('a \<Rightarrow> error + 'b) \<Rightarrow> 'a list \<Rightarrow> error + 'b list" where
  "map_result f [] = Inr []"
| "map_result f (x # xs) =
     (case f x of
        Inl e \<Rightarrow> Inl e
      | Inr y \<Rightarrow> (case map_result f xs of Inl e \<Rightarrow> Inl e | Inr ys \<Rightarrow> Inr (y # ys)))"

text \<open>\<open>s.encode("hex")\<close>, \<open>s.lower()\<close> and \<open>pat in s\<close> on byte strings.\<close>

definition hex_encode :: "string \<Rightarrow> string" where
  "hex_encode s = concat (map (\<lambda>c. [hex_digit (of_char c div 16), hex_digit (of_char c)]) s)"

definition lower_char :: "char \<Rightarrow> char" where
  "lower_char c =
     (let k = (of_char c :: nat) in if 65 \<le> k \<and> k \<le> 90 then char_of (k + 32) else c)"

definition py_lower :: "string \<Rightarrow> string" where
  "py_lower s = map lower_char s"

fun contains :: "string \<Rightarrow> string \<Rightarrow> bool" where
  "contains pat [] = (pat = [])"
| "contains pat (c # cs) = (take (length pat) (c # cs) = pat \<or> contains pat cs)"

section \<open>Self-describing decoder and trigger engine (netlog.py, lines 236-533)\<close>

subsection \<open>Argument schemas\<close>

text \<open>
  The two functions a schema can hold for an argument: \<open>default_converter\<close> and the
  entry \<open>"p"\<close> of \<open>TYPECONVERTERS\<close>.
\<close>

datatype converter = DefaultConverter | PointerConverter

fun apply_converter :: "converter \<Rightarrow> pyval \<Rightarrow> error + pyval" where
  "apply_converter DefaultConverter v = Inr (default_converter v)"
| "apply_converter PointerConverter v = pointer_converter v"

text \<open>
  \<^verbatim>\<open>
  def check_names_for_typeinfo(arginfo):
      argnames = [i[0] if type(i) in (list, tuple) else i for i in arginfo]
      converters = []
      for i in arginfo:
          if type(i) in (list, tuple):
              r = TYPECONVERTERS.get(i[1], None)
              if not r:
                  r = default_converter
              converters.append(r)
          else:
              converters.append(default_converter)
      return argnames, converters
  \<close>
\<close>

fun argname_of :: "pyval \<Rightarrow> error + pyval" where
  "argname_of (VList []) = Inl IndexError"
| "argname_of (VList (x # xs)) = Inr x"
| "argname_of i = Inr i"

fun converter_of :: "pyval \<Rightarrow> error + converter" where
  "converter_of (VList (x # t # xs)) =
     (if \<not> hashable t then Inl TypeError
      else if t = VStr ''p'' then Inr PointerConverter
      else Inr DefaultConverter)"
| "converter_of (VList xs) = Inl IndexError"
| "converter_of i = Inr DefaultConverter"

definition check_names_for_typeinfo :: "pyval \<Rightarrow> error + (pyval list \<times> converter list)" where
  "check_names_for_typeinfo arginfo =
     (case py_iter arginfo of
        Inl e \<Rightarrow> Inl e
      | Inr items \<Rightarrow>
          (case map_result argname_of items of
             Inl e \<Rightarrow> Inl e
           | Inr argnames \<Rightarrow>
               (case map_result converter_of items of
                  Inl e \<Rightarrow> Inl e
                | Inr converters \<Rightarrow> Inr (argnames, converters))))"

text \<open>
  An entry of \<open>self.infomap\<close>: \<open>(name, arginfo, argnames, converters, category)\<close>.
  The argument dictionary of a call maps argument names, which are any hashable
  values, to converted values.
\<close>

type_synonym info_entry = "pyval \<times> pyval \<times> pyval list \<times> converter list \<times> pyval"

type_synonym argdict = "(pyval, pyval) fmap"

text \<open>
  \<^verbatim>\<open>
  argdict = dict((argnames[i], converters[i](args[i]))
                 for i in range(len(args)))
  \<close>
\<close>

fun build_argdict ::
  "pyval list \<Rightarrow> converter list \<Rightarrow> pyval \<Rightarrow> nat list \<Rightarrow> argdict \<Rightarrow> error + argdict" where
  "build_argdict argnames converters args [] d = Inr d"
| "build_argdict argnames converters args (i # rest) d =
     (if length argnames \<le> i \<or> length converters \<le> i then Inl IndexError
      else
        (case py_index args i of
           Inl e \<Rightarrow> Inl e
         | Inr a \<Rightarrow>
             (case apply_converter (converters ! i) a of
                Inl e \<Rightarrow> Inl e
              | Inr v \<Rightarrow>
                  if \<not> hashable (argnames ! i) then Inl TypeError
                  else build_argdict argnames converters args rest (fmupd (argnames ! i) v d))))"

text \<open>\<open>argdict[k]\<close> for a string \<open>k\<close>.\<close>

definition arg :: "argdict \<Rightarrow> string \<Rightarrow> error + pyval" where
  "arg d k = (case fmlookup d (VStr k) of None \<Rightarrow> Inl KeyError | Some v \<Rightarrow> Inr v)"

subsection \<open>The session: decoder, handler and environment\<close>

text \<open>
  What the handler is asked to do, in order. \<open>set_event()\<close> and \<open>clear_event()\<close> build a
  fresh \<open>threading.Event\<close> and drop it; nothing of the session sees them.
\<close>

datatype vmtime = Timestamp int

datatype event =
  LogProcess "pyval list" vmtime pyval pyval pyval pyval
| LogThread "pyval list" pyval
| LogCall "pyval list" pyval pyval argdict pydict
| DumpMemory string argdict
| SuspendMachine
| ResumeMachine
| RemoveMarker

text \<open>What the operator may do inside a debugger session (the help text of \<open>hh()\<close>).\<close>

datatype pdb_command = SetBp string | SetVolshellBp string

text \<open>
  The state of one decoding session.
  \<^item> \<open>source\<close>: the bytes the Byte Source still holds;
  \<^item> \<open>infomap\<close>: the schema table of the decoder;
  \<^item> \<open>has_server\<close>, \<open>has_set_apis\<close>: \<open>hasattr(self.handler, "server")\<close> and
    \<open>hasattr(self.handler, "set_apis")\<close>;
  \<^item> \<open>apis\<close>: the Call History behind \<open>get_apis\<close>, \<open>set_apis\<close>, \<open>remove_from_apis\<close>;
  \<^item> \<open>fire_counts\<close>: the remaining fire count of each rule, behind \<open>get_times\<close> and
    \<open>reduce_times\<close>;
  \<^item> \<open>bps\<close>, \<open>volshell_bps\<close>: the armed breakpoints;
  \<^item> \<open>trace\<close>: the requests made to the handler so far;
  \<^item> \<open>evaluated\<close>: the names \<open>execute_trigger_parameters\<close> was called with so far (a
    record kept by the model, not by the code);
  \<^item> \<open>marker_polls\<close>: what the successive tests \<open>os.path.exists("/tmp/marker")\<close> will
    answer; when the list runs out the marker never appears;
  \<^item> \<open>debugger\<close>: for each debugger session to come, the commands the operator runs
    before continuing, or \<open>None\<close> when the operator never continues.
\<close>

record session =
  source :: string
  infomap :: "pyval \<rightharpoonup> info_entry"
  has_server :: bool
  has_set_apis :: bool
  apis :: "(pyval \<times> argdict) list"
  fire_counts :: "string \<Rightarrow> int"
  bps :: "string list"
  volshell_bps :: "string list"
  trace :: "event list"
  evaluated :: "string list"
  marker_polls :: "bool list"
  debugger :: "pdb_command list option list"

text \<open>
  A call returns a value, raises, or never returns because it waits for a release that
  does not come. The state it leaves is given in each case.
\<close>

datatype 'a outcome = Returned 'a | Raised error | Blocked

text \<open>
  Modelled from the spec: the handler's methods, which are not part of the decoder
  (\<open>get_apis\<close>, \<open>set_apis\<close>, \<open>remove_from_apis\<close>: Call History access, entries appended
  and explicitly removed; \<open>remaining_fire_count\<close> is decremented on each fire;
  \<open>get_bps\<close>, \<open>get_volshell_bps\<close>, \<open>set_bp\<close>, \<open>set_volshell_bp\<close>;
  \<open>dump_memory\<close>, \<open>suspend_machine\<close>, \<open>resume_machine\<close>, \<open>log_process\<close>, \<open>log_thread\<close>,
  \<open>log_call\<close>: requests, recorded in the trace).
\<close>

definition get_apis :: "session \<Rightarrow> (pyval \<times> argdict) list" where
  "get_apis s = apis s"

definition set_apis :: "(pyval \<times> argdict) list \<Rightarrow> session \<Rightarrow> session" where
  "set_apis new s = s\<lparr>apis := apis s @ new\<rparr>"

definition remove_from_apis :: "pyval \<times> argdict \<Rightarrow> session \<Rightarrow> session" where
  "remove_from_apis api s = s\<lparr>apis := remove1 api (apis s)\<rparr>"

definition get_times :: "session \<Rightarrow> string \<Rightarrow> int" where
  "get_times s apiname = fire_counts s apiname"

definition reduce_times :: "string \<Rightarrow> session \<Rightarrow> session" where
  "reduce_times apiname s =
     s\<lparr>fire_counts := (fire_counts s)(apiname := fire_counts s apiname - 1)\<rparr>"

definition get_bps :: "session \<Rightarrow> string list" where
  "get_bps s = bps s"

definition get_volshell_bps :: "session \<Rightarrow> string list" where
  "get_volshell_bps s = volshell_bps s"

definition set_bp :: "string \<Rightarrow> session \<Rightarrow> session" where
  "set_bp api s = s\<lparr>bps := bps s @ [api]\<rparr>"

definition set_volshell_bp :: "string \<Rightarrow> session \<Rightarrow> session" where
  "set_volshell_bp api s = s\<lparr>volshell_bps := volshell_bps s @ [api]\<rparr>"

definition request :: "event \<Rightarrow> session \<Rightarrow> session" where
  "request ev s = s\<lparr>trace := trace s @ [ev]\<rparr>"

text \<open>
  What the decoder takes from outside: the BSON library (\<open>None\<close> when it raises), the
  static table \<open>LOGTBL\<close> (name and category of each entry), the two conversions to a
  \<open>datetime\<close> (floating point), \<open>get_filename_from_path\<close>, and the configuration files
  \<open>triggers.conf\<close> (a rule per trigger name) and \<open>cuckoo.conf\<close> (\<open>triggered_dumps\<close>).
\<close>

record trigger_options =
  rule_enabled :: bool
  rule_dump_memory :: bool
  rule_break_on_volshell :: bool
  rule_breakpoint :: bool

record externals =
  bson_decode :: "string \<Rightarrow> pydict option"
  logtbl :: "(string \<times> string) list"
  fromtimestamp :: "pyval \<Rightarrow> error + vmtime"
  filetime_to_vmtime :: "pyval \<Rightarrow> pyval \<Rightarrow> error + vmtime"
  get_filename_from_path :: "pyval \<Rightarrow> error + pyval"
  conf :: "string \<rightharpoonup> trigger_options"
  triggered_dumps :: bool

subsection \<open>Trigger actions (netlog.py, lines 277-333)\<close>

text \<open>
  \<^verbatim>\<open>
  def call_volshell(self):
      set_event()
      self.handler.suspend_machine()
      log.info("Volshell is ready")
      while not os.path.exists("/tmp/marker"):
          time.sleep(1)
      os.remove("/tmp/marker")
      self.handler.resume_machine()
      clear_event()
  \<close>
  The loop tests for the marker until a test succeeds; \<open>wait_marker\<close> returns the
  answers left after the successful test, or \<open>None\<close> when no test ever succeeds.
\<close>

fun wait_marker :: "bool list \<Rightarrow> bool list option" where
  "wait_marker [] = None"
| "wait_marker (p # ps) = (if p then Some ps else wait_marker ps)"

definition call_volshell :: "session \<Rightarrow> unit outcome \<times> session" where
  "call_volshell s =
     (let s1 = request SuspendMachine s in
      case wait_marker (marker_polls s1) of
        None \<Rightarrow> (Blocked, s1\<lparr>marker_polls := []\<rparr>)
      | Some ps \<Rightarrow>
          (Returned (), request ResumeMachine (request RemoveMarker (s1\<lparr>marker_polls := ps\<rparr>))))"

text \<open>
  \<^verbatim>\<open>
  def breakpoint(self):
      set_event()
      self.handler.suspend_machine()
      print yellow("Run hh() for help")
      set_bp = self.set_bp
      set_volshell_bp = self.set_volshell_bp
      import pdb;pdb.set_trace()
      self.handler.resume_machine()
      clear_event()
  \<close>
\<close>

fun run_pdb_command :: "session \<Rightarrow> pdb_command \<Rightarrow> session" where
  "run_pdb_command s (SetBp api) = set_bp api s"
| "run_pdb_command s (SetVolshellBp api) = set_volshell_bp api s"

definition breakpoint :: "session \<Rightarrow> unit outcome \<times> session" where
  "breakpoint s =
     (let s1 = request SuspendMachine s in
      case debugger s1 of
        [] \<Rightarrow> (Blocked, s1)
      | None # rest \<Rightarrow> (Blocked, s1\<lparr>debugger := rest\<rparr>)
      | Some commands # rest \<Rightarrow>
          (Returned (), request ResumeMachine (foldl run_pdb_command (s1\<lparr>debugger := rest\<rparr>) commands)))"

text \<open>
  \<^verbatim>\<open>
  def execute_trigger_parameters(self, apiname, argdict):
      conf = Config(os.path.join(CUCKOO_ROOT, "conf", "triggers.conf"))
      cuckoo_conf = Config(os.path.join(CUCKOO_ROOT, "conf", "cuckoo.conf"))
      if cuckoo_conf.cuckoo.triggered_dumps and hasattr(conf, apiname) and
         getattr(conf, apiname).enabled and hasattr(self.handler, "server") and
         self.handler.get_times(apiname) > 0:
          self.handler.reduce_times(apiname)
          trig_options = getattr(conf, apiname)
          if trig_options.dump_memory:
              self.handler.dump_memory(apiname, argdict)
          if trig_options.break_on_volshell or apiname in self.handler.get_volshell_bps():
              self.call_volshell()
          if trig_options.breakpoint or apiname in self.handler.get_bps():
              self.breakpoint()
  \<close>
\<close>

definition armed :: "externals \<Rightarrow> string \<Rightarrow> session \<Rightarrow> bool" where
  "armed ext apiname s =
     (triggered_dumps ext
      \<and> (case conf ext apiname of None \<Rightarrow> False | Some opts \<Rightarrow> rule_enabled opts)
      \<and> has_server s
      \<and> 0 < get_times s apiname)"

definition fire :: "trigger_options \<Rightarrow> string \<Rightarrow> argdict \<Rightarrow> session \<Rightarrow> unit outcome \<times> session" where
  "fire opts apiname argdict s =
     (let s1 = reduce_times apiname s;
          s2 = (if rule_dump_memory opts then request (DumpMemory apiname argdict) s1 else s1)
      in case (if rule_break_on_volshell opts \<or> apiname \<in> set (get_volshell_bps s2)
               then call_volshell s2 else (Returned (), s2)) of
           (Returned u, s3) \<Rightarrow>
             (if rule_breakpoint opts \<or> apiname \<in> set (get_bps s3)
              then breakpoint s3 else (Returned (), s3))
         | (Raised e, s3) \<Rightarrow> (Raised e, s3)
         | (Blocked, s3) \<Rightarrow> (Blocked, s3))"

definition execute_trigger_parameters ::
  "externals \<Rightarrow> string \<Rightarrow> argdict \<Rightarrow> session \<Rightarrow> unit outcome \<times> session" where
  "execute_trigger_parameters ext apiname argdict s =
     (let s0 = s\<lparr>evaluated := evaluated s @ [apiname]\<rparr> in
      if armed ext apiname s0
      then (case conf ext apiname of
              None \<Rightarrow> (Returned (), s0)
            | Some opts \<Rightarrow> fire opts apiname argdict s0)
      else (Returned (), s0))"

subsection \<open>Chain rules (netlog.py, lines 470-523)\<close>

text \<open>
  \<^verbatim>\<open>
  for api in apis:
      if type(api) == tuple:
          name = api[0]
          args = api[1]
          if name == 'WriteProcessMemory':
              write_proc_args = args
              break
  \<close>
  The entries of the history are the pairs \<open>set_apis\<close> was given.
\<close>

fun first_named :: "string \<Rightarrow> (pyval \<times> argdict) list \<Rightarrow> argdict option" where
  "first_named wanted [] = None"
| "first_named wanted ((name, args) # rest) =
     (if name = VStr wanted then Some args else first_named wanted rest)"

text \<open>
  \<^verbatim>\<open>
  for api in apis:
      if type(api) == tuple:
          name = api[0]
          args = api[1]
          if name == "CreateRemoteThread":
              if args['ProcessHandle'] == write_proc_args['ProcessHandle']:
                  if argdict['ProcessId'] == args['ProcessId']:
                      self.execute_trigger_parameters(
                          "WriteProcessMemory -> CreateRemoteThread -> LoadLibrary", argdict)
                      self.handler.remove_from_apis(('WriteProcessMemory', write_proc_args))
                      self.handler.remove_from_apis((name, args))
                      break
  \<close>
\<close>

fun load_library_loop ::
  "externals \<Rightarrow> argdict \<Rightarrow> argdict \<Rightarrow> (pyval \<times> argdict) list \<Rightarrow> session
     \<Rightarrow> unit outcome \<times> session" where
  "load_library_loop ext write_proc_args argdict [] s = (Returned (), s)"
| "load_library_loop ext write_proc_args argdict ((name, args) # rest) s =
     (if name = VStr ''CreateRemoteThread'' then
        (case arg args ''ProcessHandle'' of
           Inl e \<Rightarrow> (Raised e, s)
         | Inr h \<Rightarrow>
            (case arg write_proc_args ''ProcessHandle'' of
               Inl e \<Rightarrow> (Raised e, s)
             | Inr wh \<Rightarrow>
                if h = wh then
                  (case arg argdict ''ProcessId'' of
                     Inl e \<Rightarrow> (Raised e, s)
                   | Inr pid \<Rightarrow>
                      (case arg args ''ProcessId'' of
                         Inl e \<Rightarrow> (Raised e, s)
                       | Inr apid \<Rightarrow>
                          if pid = apid then
                            (case execute_trigger_parameters ext
                                    ''WriteProcessMemory -> CreateRemoteThread -> LoadLibrary''
                                    argdict s of
                               (Returned u, s1) \<Rightarrow>
                                 (Returned (),
                                  remove_from_apis (name, args)
                                    (remove_from_apis (VStr ''WriteProcessMemory'', write_proc_args) s1))
                             | (Raised e, s1) \<Rightarrow> (Raised e, s1)
                             | (Blocked, s1) \<Rightarrow> (Blocked, s1))
                          else load_library_loop ext write_proc_args argdict rest s))
                else load_library_loop ext write_proc_args argdict rest s))
      else load_library_loop ext write_proc_args argdict rest s)"

definition chain_LdrLoadDll :: "externals \<Rightarrow> argdict \<Rightarrow> session \<Rightarrow> unit outcome \<times> session" where
  "chain_LdrLoadDll ext argdict s =
     (if has_server s then
        (case first_named ''WriteProcessMemory'' (get_apis s) of
           None \<Rightarrow> (Returned (), s)
         | Some write_proc_args \<Rightarrow> load_library_loop ext write_proc_args argdict (get_apis s) s)
      else (Returned (), s))"

definition chain_CreateRemoteThread :: "externals \<Rightarrow> argdict \<Rightarrow> session \<Rightarrow> unit outcome \<times> session" where
  "chain_CreateRemoteThread ext argdict s =
     (if has_server s then
        (case first_named ''WriteProcessMemory'' (get_apis s) of
           None \<Rightarrow> (Returned (), s)
         | Some write_proc_args \<Rightarrow>
             execute_trigger_parameters ext ''WriteProcessMemory -> CreateRemoteThread'' argdict s)
      else (Returned (), s))"

definition chain_NtResumeThread :: "externals \<Rightarrow> argdict \<Rightarrow> session \<Rightarrow> unit outcome \<times> session" where
  "chain_NtResumeThread ext argdict s =
     (if has_server s then
        (case first_named ''NtSetContextThread'' (get_apis s) of
           None \<Rightarrow> (Returned (), s)
         | Some set_thread_args \<Rightarrow>
             (case arg set_thread_args ''ThreadHandle'' of
                Inl e \<Rightarrow> (Raised e, s)
              | Inr h \<Rightarrow>
                 (case arg argdict ''ThreadHandle'' of
                    Inl e \<Rightarrow> (Raised e, s)
                  | Inr h' \<Rightarrow>
                     if h = h'
                     then execute_trigger_parameters ext ''NtSetContextThread -> NtResumeThread''
                            argdict s
                     else (Returned (), s))))
      else (Returned (), s))"

subsection \<open>Trigger rules for one call (netlog.py, lines 436-523)\<close>

text \<open>The result of a step that returns nothing, given on as the value \<open>x\<close>.\<close>

fun giving :: "'b \<Rightarrow> unit outcome \<times> session \<Rightarrow> 'b outcome \<times> session" where
  "giving x (Returned u, s) = (Returned x, s)"
| "giving x (Raised e, s) = (Raised e, s)"
| "giving x (Blocked, s) = (Blocked, s)"

text \<open>
  The \<open>elif\<close> chain on \<open>apiname\<close>, in the order of the source. The branch of
  \<open>WriteProcessMemory\<close> replaces \<open>argdict['Buffer']\<close>, so the chain gives the
  dictionary back.
\<close>

definition trigger_rules ::
  "externals \<Rightarrow> pyval \<Rightarrow> argdict \<Rightarrow> session \<Rightarrow> argdict outcome \<times> session" where
  "trigger_rules ext apiname argdict s =
     (if apiname = VStr ''VirtualProtectEx'' then
        (if has_server s then
           (case arg argdict ''CurrentProcessId'' of
              Inl e \<Rightarrow> (Raised e, s)
            | Inr cur \<Rightarrow>
               (case arg argdict ''ProcessId'' of
                  Inl e \<Rightarrow> (Raised e, s)
                | Inr pid \<Rightarrow>
                   if cur \<noteq> pid
                   then giving argdict (execute_trigger_parameters ext ''VirtualProtectEx'' argdict s)
                   else (Returned argdict, s)))
         else (Returned argdict, s))
      else if apiname = VStr ''monitorCPU'' then
        giving argdict (execute_trigger_parameters ext ''monitorCPU'' argdict s)
      else if apiname = VStr ''NtCreateProcess'' then
        giving argdict (execute_trigger_parameters ext ''NtCreateProcess'' argdict s)
      else if apiname = VStr ''monitorUnpacking'' then
        giving argdict (execute_trigger_parameters ext ''monitorUnpacking'' argdict s)
      else if apiname = VStr ''UnhookWindowsHookEx'' then
        giving argdict (execute_trigger_parameters ext ''UnhookWindowsHookEx'' argdict s)
      else if apiname = VStr ''StartServiceA'' then
        giving argdict (execute_trigger_parameters ext ''StartServiceA'' argdict s)
      else if apiname = VStr ''StartServiceW'' then
        giving argdict (execute_trigger_parameters ext ''StartServiceW'' argdict s)
      else if apiname = VStr ''SetWinEventHook'' then
        giving argdict (execute_trigger_parameters ext ''SetWinEventHook'' argdict s)
      else if apiname = VStr ''socket'' then
        giving argdict (execute_trigger_parameters ext ''socket'' argdict s)
      else if apiname = VStr ''SetWindowsHookExW'' then
        giving argdict (execute_trigger_parameters ext ''SetWindowsHookExW'' argdict s)
      else if apiname = VStr ''SetWindowsHookExA'' then
        giving argdict (execute_trigger_parameters ext ''SetWindowsHookExA'' argdict s)
      else if apiname = VStr ''ZwLoadDriver'' then
        giving argdict (execute_trigger_parameters ext ''ZwLoadDriver'' argdict s)
      else if apiname = VStr ''NtCreateFile'' then
        (case arg argdict ''FileName'' of
           Inl e \<Rightarrow> (Raised e, s)
         | Inr (VStr f) \<Rightarrow>
             (let filename = py_lower f in
              if has_server s
                 \<and> (contains ''.sys'' filename \<or> \<not> contains [CHR '':'', CHR 0x5C] filename)
                 \<and> \<not> contains ''system32'' filename
              then giving argdict (execute_trigger_parameters ext ''NtCreateFile'' argdict s)
              else (Returned argdict, s))
         | Inr other \<Rightarrow> (Raised AttributeError, s))
      else if apiname = VStr ''NtCreateMutant'' then
        giving argdict (execute_trigger_parameters ext ''NtCreateMutant'' argdict s)
      else if apiname = VStr ''WriteProcessMemory'' then
        (case arg argdict ''Buffer'' of
           Inl e \<Rightarrow> (Raised e, s)
         | Inr (VStr b) \<Rightarrow>
             (let argdict1 = fmupd (VStr ''Buffer'') (VStr (hex_encode b)) argdict in
              case arg argdict1 ''ProcessId'' of
                Inl e \<Rightarrow> (Raised e, s)
              | Inr pid \<Rightarrow>
                 (case arg argdict1 ''CurrProcessId'' of
                    Inl e \<Rightarrow> (Raised e, s)
                  | Inr cur \<Rightarrow>
                     if pid \<noteq> cur
                     then giving argdict1
                            (execute_trigger_parameters ext ''WriteProcessMemory'' argdict1 s)
                     else (Returned argdict1, s)))
         | Inr other \<Rightarrow> (Raised AttributeError, s))
      else if apiname = VStr ''NtResumeThread'' then
        giving argdict (chain_NtResumeThread ext argdict s)
      else if apiname = VStr ''CreateRemoteThread'' then
        giving argdict (chain_CreateRemoteThread ext argdict s)
      else if apiname = VStr ''LdrLoadDll'' then
        giving argdict (chain_LdrLoadDll ext argdict s)
      else (Returned argdict, s))"

subsection \<open>Messages (netlog.py, lines 335-533)\<close>

definition MAX_MESSAGE_LENGTH :: nat where
  "MAX_MESSAGE_LENGTH = 20 * 1024 * 1024"

text \<open>
  \<^verbatim>\<open>
  context[1] = argdict.pop("is_success", 1)
  context[2] = argdict.pop("retval", 0)
  arguments = argdict.items()
  arguments += dec.get("aux", {}).items()
  self.handler.log_call(context, apiname, category, arguments)
  \<close>
  The items of a dictionary come in no fixed order: the request carries the two
  dictionaries.
\<close>

definition pop_arg :: "argdict \<Rightarrow> string \<Rightarrow> pyval \<Rightarrow> pyval \<times> argdict" where
  "pop_arg d k dflt =
     (case fmlookup d (VStr k) of None \<Rightarrow> (dflt, d) | Some v \<Rightarrow> (v, fmdrop (VStr k) d))"

definition emit_call ::
  "pyval list \<Rightarrow> pyval \<Rightarrow> pyval \<Rightarrow> argdict \<Rightarrow> pydict \<Rightarrow> session \<Rightarrow> bool outcome \<times> session" where
  "emit_call context apiname category argdict dec s =
     (let (is_success, argdict1) = pop_arg argdict ''is_success'' (VInt 1);
          (retval, argdict2) = pop_arg argdict1 ''retval'' (VInt 0);
          context2 = (context[1 := is_success])[2 := retval]
      in case dict_get dec ''aux'' (VDict fmempty) of
           VDict aux \<Rightarrow> (Returned True, request (LogCall context2 apiname category argdict2 aux) s)
         | other \<Rightarrow> (Raised AttributeError, s))"

text \<open>The bookkeeping call \<open>__process__\<close> (lines 414-431).\<close>

definition process_message ::
  "externals \<Rightarrow> pyval list \<Rightarrow> argdict \<Rightarrow> session \<Rightarrow> bool outcome \<times> session" where
  "process_message ext context argdict s =
     (case arg argdict ''TimeLow'' of
        Inl e \<Rightarrow> (Raised e, s)
      | Inr timelow \<Rightarrow>
     (case arg argdict ''TimeHigh'' of
        Inl e \<Rightarrow> (Raised e, s)
      | Inr timehigh \<Rightarrow>
     (case filetime_to_vmtime ext timelow timehigh of
        Inl e \<Rightarrow> (Raised e, s)
      | Inr vmtime \<Rightarrow>
     (case arg argdict ''ProcessIdentifier'' of
        Inl e \<Rightarrow> (Raised e, s)
      | Inr pid \<Rightarrow>
     (case arg argdict ''ParentProcessIdentifier'' of
        Inl e \<Rightarrow> (Raised e, s)
      | Inr ppid \<Rightarrow>
     (case arg argdict ''ModulePath'' of
        Inl e \<Rightarrow> (Raised e, s)
      | Inr modulepath \<Rightarrow>
     (case get_filename_from_path ext modulepath of
        Inl e \<Rightarrow> (Raised e, s)
      | Inr procname \<Rightarrow>
          giving True
            (execute_trigger_parameters ext ''__process__'' argdict
               (request (LogProcess context vmtime pid ppid modulepath procname) s)))))))))"

text \<open>A regular call (lines 393-531).\<close>

definition regular_call ::
  "externals \<Rightarrow> pydict \<Rightarrow> pyval \<Rightarrow> pyval list \<Rightarrow> session \<Rightarrow> bool outcome \<times> session" where
  "regular_call ext dec index context s =
     (if \<not> hashable index then (Raised TypeError, s)
      else
        (case infomap s index of
           None \<Rightarrow> (Returned True, s)
         | Some (apiname, arginfo, argnames, converters, category) \<Rightarrow>
            (let args = dict_get dec ''args'' (VList []) in
             case py_len args of
               Inl e \<Rightarrow> (Raised e, s)
             | Inr n \<Rightarrow>
                if n \<noteq> length argnames then (Returned True, s)
                else
                  (case build_argdict argnames converters args [0..<n] fmempty of
                     Inl e \<Rightarrow> (Raised e, s)
                   | Inr argdict \<Rightarrow>
                      (let s1 = (if has_set_apis s then set_apis [(apiname, argdict)] s else s) in
                       if apiname = VStr ''__process__'' then process_message ext context argdict s1
                       else if apiname = VStr ''__thread__'' then
                         (case arg argdict ''ProcessIdentifier'' of
                            Inl e \<Rightarrow> (Raised e, s1)
                          | Inr pid \<Rightarrow> (Returned True, request (LogThread context pid) s1))
                       else
                         (case trigger_rules ext apiname argdict s1 of
                            (Returned argdict1, s2) \<Rightarrow>
                              emit_call context apiname category argdict1 dec s2
                          | (Raised e, s2) \<Rightarrow> (Raised e, s2)
                          | (Blocked, s2) \<Rightarrow> (Blocked, s2)))))))"

text \<open>An \<open>info\<close> message (lines 360-377).\<close>

definition info_message :: "externals \<Rightarrow> pydict \<Rightarrow> pyval \<Rightarrow> session \<Rightarrow> bool outcome \<times> session" where
  "info_message ext dec index s =
     (let name = dict_get dec ''name'' (VStr ''NONAME'');
          arginfo = dict_get dec ''args'' (VList []);
          category0 = dict_get dec ''category'' VNone;
          category =
            (if truthy category0 then category0
             else (case filter (\<lambda>entry. VStr (fst entry) = name) (logtbl ext) of
                     [] \<Rightarrow> VStr ''unknown''
                   | entry # others \<Rightarrow> VStr (snd entry)))
      in case check_names_for_typeinfo arginfo of
           Inl e \<Rightarrow> (Raised e, s)
         | Inr (argnames, converters) \<Rightarrow>
             if \<not> hashable index then (Raised TypeError, s)
             else (Returned True,
                   s\<lparr>infomap := (infomap s)(index \<mapsto> (name, arginfo, argnames, converters, category))\<rparr>))"

text \<open>
  \<^verbatim>\<open>
  def read_next_message(self):
      data = self.handler.read(4)
      blen = struct.unpack("I", data)[0]
      if blen > MAX_MESSAGE_LENGTH:
          log.critical("BSON message larger than MAX_MESSAGE_LENGTH, stopping handler.")
          return False
      data += self.handler.read(blen-4)
      try:
          dec = bson_decode(data)
      except Exception as e:
          log.warning(...)
          return False
      mtype = dec.get("type", "none")
      index = dec.get("I", -1)
      tid = dec.get("T", 0)
      time = dec.get("t", 0)
      context = [index, 1, 0, tid, time]
      if mtype == "info": ...
      elif mtype == "debug": ...
      elif mtype == "new_process": ...
      else: ...
      return True
  \<close>
  A request for fewer than one byte (\<open>blen < 4\<close>) reads nothing.
\<close>

definition handle_message :: "externals \<Rightarrow> pydict \<Rightarrow> session \<Rightarrow> bool outcome \<times> session" where
  "handle_message ext dec s =
     (let mtype = dict_get dec ''type'' (VStr ''none'');
          index = dict_get dec ''I'' (VInt (- 1));
          tid = dict_get dec ''T'' (VInt 0);
          time = dict_get dec ''t'' (VInt 0);
          context = [index, VInt 1, VInt 0, tid, time]
      in if mtype = VStr ''info'' then info_message ext dec index s
         else if mtype = VStr ''debug'' then (Returned True, s)
         else if mtype = VStr ''new_process'' then
           (case fromtimestamp ext (dict_get dec ''starttime'' (VInt 0)) of
              Inl e \<Rightarrow> (Raised e, s)
            | Inr vmtime \<Rightarrow>
                (Returned True,
                 request (LogProcess context vmtime VNone (VInt 0) (VStr ''DUMMY'')
                            (dict_get dec ''name'' (VStr ''NONAME''))) s))
         else regular_call ext dec index context s)"

definition read_next_message :: "externals \<Rightarrow> session \<Rightarrow> bool outcome \<times> session" where
  "read_next_message ext s =
     (let (data, rest) = read 4 (source s);
          s1 = s\<lparr>source := rest\<rparr>
      in case unpack_I data of
           Inl e \<Rightarrow> (Raised e, s1)
         | Inr blen \<Rightarrow>
             if blen > MAX_MESSAGE_LENGTH then (Returned False, s1)
             else
               (let (payload, rest2) = read (blen - 4) (source s1);
                    s2 = s1\<lparr>source := rest2\<rparr>
                in case bson_decode ext (data @ payload) of
                     None \<Rightarrow> (Returned False, s2)
                   | Some dec \<Rightarrow> handle_message ext dec s2))"

subsection \<open>Frame of the trigger actions, and configurations for the worked examples\<close>

text \<open>What no trigger action touches, apart from the fire counts and the record of evaluations.\<close>

definition same_core :: "session \<Rightarrow> session \<Rightarrow> bool" where
  "same_core s s' \<longleftrightarrow>
     source s' = source s \<and> infomap s' = infomap s \<and> has_server s' = has_server s
     \<and> has_set_apis s' = has_set_apis s \<and> apis s' = apis s
     \<and> fire_counts s' = fire_counts s \<and> evaluated s' = evaluated s"

definition chain3 :: string where
  "chain3 = ''WriteProcessMemory -> CreateRemoteThread -> LoadLibrary''"

definition demo_options :: trigger_options where
  "demo_options =
     \<lparr>rule_enabled = True, rule_dump_memory = True,
      rule_break_on_volshell = False, rule_breakpoint = False\<rparr>"

text \<open>
  A configuration with one rule for \<open>socket\<close> and one for the three-step chain, both
  enabled and asking for a memory dump; \<open>dumps\<close> is the switch \<open>triggered_dumps\<close>.
\<close>

definition demo_externals :: "bool \<Rightarrow> externals" where
  "demo_externals dumps =
     \<lparr>bson_decode = (\<lambda>b. None), logtbl = [],
      fromtimestamp = (\<lambda>v. Inr (Timestamp 0)),
      filetime_to_vmtime = (\<lambda>lo hi. Inr (Timestamp 0)),
      get_filename_from_path = Inr,
      conf = (\<lambda>name. if name = ''socket'' \<or> name = chain3 then Some demo_options else None),
      triggered_dumps = dumps\<rparr>"

text \<open>A session of a handler with a server, a given Call History and three fires left for every rule.\<close>

definition demo_session :: "(pyval \<times> argdict) list \<Rightarrow> session" where
  "demo_session history =
     \<lparr>source = [], infomap = Map.empty, has_server = True, has_set_apis = True,
      apis = history, fire_counts = (\<lambda>name. 3), bps = [], volshell_bps = [],
      trace = [], evaluated = [], marker_polls = [], debugger = []\<rparr>"

text \<open>Argument dictionaries of the three calls of the injection chain.\<close>

definition wpm_args :: "int \<Rightarrow> argdict" where
  "wpm_args h = fmupd (VStr ''ProcessHandle'') (VInt h) fmempty"

definition crt_args :: "int \<Rightarrow> int \<Rightarrow> argdict" where
  "crt_args h pid =
     fmupd (VStr ''ProcessHandle'') (VInt h) (fmupd (VStr ''ProcessId'') (VInt pid) fmempty)"

definition ldr_args :: "int \<Rightarrow> argdict" where
  "ldr_args pid = fmupd (VStr ''ProcessId'') (VInt pid) fmempty"

text \<open>
  A session whose schema table knows the index 7 (\<open>socket\<close>, one argument), with the
  given bytes to come; and a decoder library that answers every frame with the
  document \<open>dec\<close>.
\<close>

definition schema_session :: "string \<Rightarrow> session" where
  "schema_session bytes =
     (demo_session [])
       \<lparr>source := bytes,
        infomap := [VInt 7 \<mapsto> (VStr ''socket'', VList [VStr ''af''], [VStr ''af''],
                                [DefaultConverter], VStr ''network'')]\<rparr>"

definition decoding_to :: "pydict \<Rightarrow> externals" where
  "decoding_to dec = (demo_externals True)\<lparr>bson_decode := (\<lambda>b. Some dec)\<rparr>"

definition call_document :: "int \<Rightarrow> pyval list \<Rightarrow> pydict" where
  "call_document index args = fmupd ''I'' (VInt index) (fmupd ''args'' (VList args) fmempty)"

section \<open>Differencing engine (memoryanalysis.py, lines 63-172)\<close>

text \<open>
  A snapshot maps a facet name to the facet's configuration and data; the data is a
  sequence of records, and a record is a dictionary of named fields.
\<close>

record facet =
  facet_config :: pyval
  facet_data :: "pydict list"

type_synonym snapshot = "string \<rightharpoonup> facet"

text \<open>\<open>old[dep]['data']\<close>: a snapshot without the facet raises \<open>KeyError\<close>.\<close>

definition data_of :: "snapshot \<Rightarrow> string \<Rightarrow> error + pydict list" where
  "data_of snap dep = (case snap dep of None \<Rightarrow> Inl KeyError | Some f \<Rightarrow> Inr (facet_data f))"

text \<open>
  \<^verbatim>\<open>
  class hashabledict(dict):
      def __hash__(self):
          return hash(tuple(sorted(self.items())))
  \<close>
  Hashing a record hashes every value in it, so a record with a list or a dictionary
  among its values cannot enter a set. Two records are the same member of a set when
  they are equal as dictionaries: the same fields with the same values, in any order;
  that is equality of \<open>pydict\<close>.
\<close>

definition hash_record :: "pydict \<Rightarrow> error + pydict" where
  "hash_record d = (if fmpred (\<lambda>k v. hashable v) d then Inr d else Inl TypeError)"

text \<open>
  \<open>set([hashabledict(d) for d in data])\<close>. A Python set is held as a list without
  duplicates; the order in which Python hands out the members of a set is not
  specified, and nothing below depends on the order chosen here.
\<close>

definition record_set :: "pydict list \<Rightarrow> error + pydict list" where
  "record_set ds = (case map_result hash_record ds of Inl e \<Rightarrow> Inl e | Inr hs \<Rightarrow> Inr (remdups hs))"

text \<open>
  \<^verbatim>\<open>
  def get_new_objects(self, old, new, deps):
      hashable_united_old = set([])
      hashable_united_new = set([])
      for dep in deps:
          hashable_united_old = hashable_united_old | set([hashabledict(d) for d in old[dep]['data']])
          hashable_united_new = hashable_united_new | set([hashabledict(d) for d in new[dep]['data']])
      return list(set(hashable_united_new) - set(hashable_united_old))
  \<close>
\<close>

fun unite ::
  "snapshot \<Rightarrow> snapshot \<Rightarrow> string list \<Rightarrow> pydict list \<times> pydict list
     \<Rightarrow> error + (pydict list \<times> pydict list)" where
  "unite old new [] (united_old, united_new) = Inr (united_old, united_new)"
| "unite old new (dep # deps) (united_old, united_new) =
     (case data_of old dep of
        Inl e \<Rightarrow> Inl e
      | Inr old_data \<Rightarrow>
         (case record_set old_data of
            Inl e \<Rightarrow> Inl e
          | Inr old_set \<Rightarrow>
             (case data_of new dep of
                Inl e \<Rightarrow> Inl e
              | Inr new_data \<Rightarrow>
                 (case record_set new_data of
                    Inl e \<Rightarrow> Inl e
                  | Inr new_set \<Rightarrow>
                      unite old new deps
                        (remdups (united_old @ old_set), remdups (united_new @ new_set))))))"

definition get_new_objects :: "snapshot \<Rightarrow> snapshot \<Rightarrow> string list \<Rightarrow> error + pydict list" where
  "get_new_objects old new deps =
     (case unite old new deps ([], []) of
        Inl e \<Rightarrow> Inl e
      | Inr (united_old, united_new) \<Rightarrow> Inr (filter (\<lambda>d. d \<notin> set united_old) united_new))"

text \<open>
  \<^verbatim>\<open>
  def get_new_connections(self, old, new, deps):
      found_connections = self.get_new_objects(old, new, deps)
      new_connections = []
      for c in found_connections:
          if not (c["local_port"] == 8000 or \
             c['remote_port'] == 2042 or \
             c["remote_address"] == "293.268.122.1"):
              new_connections.append(c)
      return new_connections
  \<close>
  \<open>or\<close> stops at the first test that holds, so a later field is read only when the
  earlier tests fail.
\<close>

definition excluded_connection :: "pydict \<Rightarrow> error + bool" where
  "excluded_connection c =
     (case getitem c ''local_port'' of
        Inl e \<Rightarrow> Inl e
      | Inr local_port \<Rightarrow>
          if local_port = VInt 8000 then Inr True
          else
            (case getitem c ''remote_port'' of
               Inl e \<Rightarrow> Inl e
             | Inr remote_port \<Rightarrow>
                 if remote_port = VInt 2042 then Inr True
                 else
                   (case getitem c ''remote_address'' of
                      Inl e \<Rightarrow> Inl e
                    | Inr remote_address \<Rightarrow> Inr (remote_address = VStr ''293.268.122.1''))))"

fun keep_connections :: "pydict list \<Rightarrow> error + pydict list" where
  "keep_connections [] = Inr []"
| "keep_connections (c # cs) =
     (case excluded_connection c of
        Inl e \<Rightarrow> Inl e
      | Inr excluded \<Rightarrow>
         (case keep_connections cs of
            Inl e \<Rightarrow> Inl e
          | Inr kept \<Rightarrow> Inr (if excluded then kept else c # kept)))"

definition get_new_connections :: "snapshot \<Rightarrow> snapshot \<Rightarrow> string list \<Rightarrow> error + pydict list" where
  "get_new_connections old new deps =
     (case get_new_objects old new deps of
        Inl e \<Rightarrow> Inl e
      | Inr found_connections \<Rightarrow> keep_connections found_connections)"

text \<open>
  \<^verbatim>\<open>
  def get_new_dlllist(self, old, new, deps):
      new_dlls = []
      for proc in new['dlllist']['data']:
          pid = proc['process_id']
          pname = proc['process_name']
          old_p = None
          for p in old['dlllist']['data']:
              if pid == p['process_id']:
                  old_p = p
                  break
          if old_p is not None:
              for module in proc['loaded_modules']:
                  found = False
                  for m in old_p['loaded_modules']:
                      if m['dll_full_name'] == module['dll_full_name']:
                          found = True
                          break
                  if not found:
                      module['process_id'] = pid
                      module['process_name'] = pname
                      new_dlls.append(module)
      return new_dlls
  \<close>
  The records of a snapshot are separate objects, so annotating one module does not
  change another.
\<close>

text \<open>\<open>v[k]\<close> and \<open>v[k] = x\<close> for a string \<open>k\<close>: only a dictionary takes a string.\<close>

fun subscript :: "pyval \<Rightarrow> string \<Rightarrow> error + pyval" where
  "subscript (VDict d) k = getitem d k"
| "subscript v k = Inl TypeError"

fun store :: "pyval \<Rightarrow> string \<Rightarrow> pyval \<Rightarrow> error + pyval" where
  "store (VDict d) k x = Inr (VDict (fmupd k x d))"
| "store v k x = Inl TypeError"

fun find_process :: "pyval \<Rightarrow> pydict list \<Rightarrow> error + pydict option" where
  "find_process pid [] = Inr None"
| "find_process pid (p # ps) =
     (case getitem p ''process_id'' of
        Inl e \<Rightarrow> Inl e
      | Inr q \<Rightarrow> if pid = q then Inr (Some p) else find_process pid ps)"

fun module_found :: "pyval \<Rightarrow> pyval list \<Rightarrow> error + bool" where
  "module_found module [] = Inr False"
| "module_found module (m # ms) =
     (case subscript m ''dll_full_name'' of
        Inl e \<Rightarrow> Inl e
      | Inr old_name \<Rightarrow>
         (case subscript module ''dll_full_name'' of
            Inl e \<Rightarrow> Inl e
          | Inr new_name \<Rightarrow> if old_name = new_name then Inr True else module_found module ms))"

fun new_modules :: "pyval \<Rightarrow> pyval \<Rightarrow> pydict \<Rightarrow> pyval list \<Rightarrow> error + pyval list" where
  "new_modules pid pname old_p [] = Inr []"
| "new_modules pid pname old_p (module # modules) =
     (case getitem old_p ''loaded_modules'' of
        Inl e \<Rightarrow> Inl e
      | Inr old_modules \<Rightarrow>
     (case py_iter old_modules of
        Inl e \<Rightarrow> Inl e
      | Inr old_list \<Rightarrow>
     (case module_found module old_list of
        Inl e \<Rightarrow> Inl e
      | Inr found \<Rightarrow>
          if found then new_modules pid pname old_p modules
          else
            (case store module ''process_id'' pid of
               Inl e \<Rightarrow> Inl e
             | Inr module1 \<Rightarrow>
            (case store module1 ''process_name'' pname of
               Inl e \<Rightarrow> Inl e
             | Inr module2 \<Rightarrow>
            (case new_modules pid pname old_p modules of
               Inl e \<Rightarrow> Inl e
             | Inr others \<Rightarrow> Inr (module2 # others)))))))"

fun dlllist_loop :: "snapshot \<Rightarrow> pydict list \<Rightarrow> error + pyval list" where
  "dlllist_loop old [] = Inr []"
| "dlllist_loop old (proc # procs) =
     (case getitem proc ''process_id'' of
        Inl e \<Rightarrow> Inl e
      | Inr pid \<Rightarrow>
     (case getitem proc ''process_name'' of
        Inl e \<Rightarrow> Inl e
      | Inr pname \<Rightarrow>
     (case data_of old ''dlllist'' of
        Inl e \<Rightarrow> Inl e
      | Inr old_procs \<Rightarrow>
     (case find_process pid old_procs of
        Inl e \<Rightarrow> Inl e
      | Inr None \<Rightarrow> dlllist_loop old procs
      | Inr (Some old_p) \<Rightarrow>
         (case getitem proc ''loaded_modules'' of
            Inl e \<Rightarrow> Inl e
          | Inr modules \<Rightarrow>
         (case py_iter modules of
            Inl e \<Rightarrow> Inl e
          | Inr module_list \<Rightarrow>
         (case new_modules pid pname old_p module_list of
            Inl e \<Rightarrow> Inl e
          | Inr found \<Rightarrow>
         (case dlllist_loop old procs of
            Inl e \<Rightarrow> Inl e
          | Inr others \<Rightarrow> Inr (found @ others)))))))))"

definition get_new_dlllist :: "snapshot \<Rightarrow> snapshot \<Rightarrow> string list \<Rightarrow> error + pyval list" where
  "get_new_dlllist old new deps =
     (case data_of new ''dlllist'' of
        Inl e \<Rightarrow> Inl e
      | Inr procs \<Rightarrow> dlllist_loop old procs)"

text \<open>The records that a snapshot holds under the facets of a dependency list.\<close>

definition facet_records :: "snapshot \<Rightarrow> string list \<Rightarrow> pydict set" where
  "facet_records snap deps = {d. \<exists>dep \<in> set deps. \<exists>ds. data_of snap dep = Inr ds \<and> d \<in> set ds}"

text \<open>Connection records and snapshots for the worked example.\<close>

definition connection :: "int \<Rightarrow> int \<Rightarrow> string \<Rightarrow> pydict" where
  "connection local_port remote_port remote_address =
     fmupd ''local_port'' (VInt local_port)
       (fmupd ''remote_port'' (VInt remote_port)
          (fmupd ''remote_address'' (VStr remote_address) fmempty))"

definition connscan :: "pydict list \<Rightarrow> snapshot" where
  "connscan ds = [''connscan'' \<mapsto> \<lparr>facet_config = VNone, facet_data = ds\<rparr>]"

text \<open>Process and module records for the worked example of the DLL-list diff.\<close>

definition dll :: "string \<Rightarrow> pyval" where
  "dll name = VDict (fmupd ''dll_full_name'' (VStr name) fmempty)"

definition process :: "int \<Rightarrow> string \<Rightarrow> pyval list \<Rightarrow> pydict" where
  "process pid name modules =
     fmupd ''process_id'' (VInt pid)
       (fmupd ''process_name'' (VStr name) (fmupd ''loaded_modules'' (VList modules) fmempty))"

definition dlllist :: "pydict list \<Rightarrow> snapshot" where
  "dlllist procs = [''dlllist'' \<mapsto> \<lparr>facet_config = VNone, facet_data = procs\<rparr>]"

section \<open>Escalation policy (memoryanalysis.py, lines 444-454 and 522-623)\<close>

text \<open>
  The result of the differencing pass, \<open>mem_analysis["diffs"]\<close>: an entry per facet, each
  a dictionary with the fields \<open>desc\<close>, \<open>new\<close>, \<open>deleted\<close> and \<open>star\<close>.
\<close>

type_synonym diffs = "string \<rightharpoonup> pydict"

text \<open>
  What this stage takes from outside: the configuration \<open>triggers.conf\<close>
  (\<open>run_smart_plugins\<close> and \<open>run_plugins\<close> of each trigger), the tables
  \<open>TRIGGER_PLUGINS\<close> and \<open>PAGE_PROTECTIONS\<close> of \<open>memoryanalysisconsts\<close> and
  \<open>PROTECT_FLAGS\<close> of the forensics library, the conversions \<open>int(x, 16)\<close>, \<open>int(x)\<close> and
  \<open>str(x)\<close>, the regular-expression search for process ids, the last component of a
  module path, the disassembler (\<open>None\<close> when it fails), and the forensic primitives,
  each with the part of its result that the code reads:
  \<open>vol.patcher(..)["patches"]\<close>, \<open>vol.moddump(..)["data"][0]["module_name"]\<close>,
  \<open>vol.dlldump(..)["data"]\<close>, \<open>vol.malfind(..)["data"][0]\<close>, \<open>vol.threads(..)["data"]\<close>.
\<close>

record forensics =
  smart_conf :: "string \<rightharpoonup> bool \<times> string"
  TRIGGER_PLUGINS :: "string \<rightharpoonup> string list"
  PAGE_PROTECTIONS :: "int \<rightharpoonup> string"
  PROTECT_FLAGS :: "(int \<times> string) list"
  int16 :: "pyval \<Rightarrow> error + int"
  to_int :: "pyval \<Rightarrow> error + int"
  to_str :: "pyval \<Rightarrow> pyval"
  find_pids :: "pyval \<Rightarrow> error + pyval list"
  last_component :: "pyval \<Rightarrow> error + pyval"
  disasm :: "pyval \<Rightarrow> int \<Rightarrow> pyval"
  vol_patcher :: "error + pyval list"
  vol_moddump :: "int \<Rightarrow> error + pyval"
  vol_dlldump_regex :: "pyval \<Rightarrow> pyval \<Rightarrow> error + pyval"
  vol_dlldump_base :: "pyval \<Rightarrow> int \<Rightarrow> error + pyval"
  vol_malfind :: "bool \<Rightarrow> pyval \<Rightarrow> int \<Rightarrow> error + pyval"
  vol_threads :: "pyval \<Rightarrow> error + pyval list"

text \<open>
  \<^verbatim>\<open>
  def parse_trigger_plugins(self, trigger):
      smart_analysis = False
      plugins = []
      conf = Config(...)
      if hasattr(conf, trigger):
          trig_opts = getattr(conf, trigger)
          if trig_opts.run_smart_plugins:
              smart_analysis = True
          if trig_opts.run_plugins != "":
              plugins = trig_opts.run_plugins.split(",")
      return smart_analysis, plugins
  \<close>
\<close>

fun split_commas :: "string \<Rightarrow> string \<Rightarrow> string list" where
  "split_commas acc [] = [rev acc]"
| "split_commas acc (c # cs) =
     (if c = CHR '','' then rev acc # split_commas [] cs else split_commas (c # acc) cs)"

definition parse_trigger_plugins :: "forensics \<Rightarrow> string \<Rightarrow> bool \<times> string list" where
  "parse_trigger_plugins fx trigger =
     (case smart_conf fx trigger of
        None \<Rightarrow> (False, [])
      | Some (run_smart_plugins, run_plugins) \<Rightarrow>
          (run_smart_plugins, if run_plugins \<noteq> [] then split_commas [] run_plugins else []))"

text \<open>\<open>diffs[name]["star"] = "yes"\<close> and \<open>diffs[name][field].append(x)\<close>.\<close>

definition set_star :: "string \<Rightarrow> diffs \<Rightarrow> error + diffs" where
  "set_star name ds =
     (case ds name of
        None \<Rightarrow> Inl KeyError
      | Some entry \<Rightarrow> Inr (ds(name \<mapsto> fmupd ''star'' (VStr ''yes'') entry)))"

definition field_list :: "string \<Rightarrow> string \<Rightarrow> diffs \<Rightarrow> error + pyval list" where
  "field_list name field ds =
     (case ds name of
        None \<Rightarrow> Inl KeyError
      | Some entry \<Rightarrow>
         (case fmlookup entry field of
            None \<Rightarrow> Inl KeyError
          | Some (VList xs) \<Rightarrow> Inr xs
          | Some other \<Rightarrow> Inl AttributeError))"

definition append_to :: "string \<Rightarrow> string \<Rightarrow> pyval \<Rightarrow> diffs \<Rightarrow> error + diffs" where
  "append_to name field x ds =
     (case ds name of
        None \<Rightarrow> Inl KeyError
      | Some entry \<Rightarrow>
         (case field_list name field ds of
            Inl e \<Rightarrow> Inl e
          | Inr xs \<Rightarrow> Inr (ds(name \<mapsto> fmupd field (VList (xs @ [x])) entry))))"

definition diff_entry :: "string \<Rightarrow> string \<Rightarrow> pyval list \<Rightarrow> pydict" where
  "diff_entry star desc new =
     fmupd ''star'' (VStr star)
       (fmupd ''new'' (VList new) (fmupd ''deleted'' (VList []) (fmupd ''desc'' (VStr desc) fmempty)))"

text \<open>
  \<^verbatim>\<open>
  if memoryanalysisconsts.TRIGGER_PLUGINS.has_key(trigger):
      for plugin in memoryanalysisconsts.TRIGGER_PLUGINS[trigger]:
          #self.run_memory_plugin(mem_analysis, plugin, self.clean_data, new_results)
          if mem_analysis["diffs"].has_key(plugin):
              mem_analysis["diffs"][plugin]["star"] = "yes"
  \<close>
\<close>

fun star_plugins :: "string list \<Rightarrow> diffs \<Rightarrow> diffs" where
  "star_plugins [] ds = ds"
| "star_plugins (plugin # plugins) ds =
     (case ds plugin of
        None \<Rightarrow> star_plugins plugins ds
      | Some entry \<Rightarrow> star_plugins plugins (ds(plugin \<mapsto> fmupd ''star'' (VStr ''yes'') entry)))"

text \<open>The driver loop of \<open>ZwLoadDriver\<close> (lines 549-554).\<close>

fun dump_drivers :: "forensics \<Rightarrow> pyval list \<Rightarrow> diffs \<Rightarrow> error + diffs" where
  "dump_drivers fx [] ds = Inr ds"
| "dump_drivers fx (p # ps) ds =
     (case to_int fx p of
        Inl e \<Rightarrow> Inl e
      | Inr offset \<Rightarrow>
     (case vol_moddump fx (offset + 0x7fe00000) of
        Inl e \<Rightarrow> Inl e
      | Inr name \<Rightarrow>
     (case append_to ''diff_moddump'' ''new''
             (VDict (fmupd ''module_name'' name
                       (fmupd ''module_base'' (VInt (offset + 0x7fe00000)) fmempty))) ds of
        Inl e \<Rightarrow> Inl e
      | Inr ds1 \<Rightarrow> dump_drivers fx ps ds1)))"

text \<open>The hook loop of \<open>SetWindowsHookExA\<close> and \<open>SetWindowsHookExW\<close> (lines 557-567).\<close>

fun dump_hooks :: "forensics \<Rightarrow> pyval list \<Rightarrow> diffs \<Rightarrow> error + diffs" where
  "dump_hooks fx [] ds = Inr ds"
| "dump_hooks fx (mh # mhs) ds =
     (case subscript mh ''thread'' of
        Inl e \<Rightarrow> Inl e
      | Inr thread \<Rightarrow>
     (case find_pids fx thread of
        Inl e \<Rightarrow> Inl e
      | Inr [] \<Rightarrow> dump_hooks fx mhs ds
      | Inr (pid # pids) \<Rightarrow>
         (case subscript mh ''module'' of
            Inl e \<Rightarrow> Inl e
          | Inr module \<Rightarrow>
         (case last_component fx module of
            Inl e \<Rightarrow> Inl e
          | Inr mod_name \<Rightarrow>
         (case vol_dlldump_regex fx pid mod_name of
            Inl e \<Rightarrow> Inl e
          | Inr data \<Rightarrow>
             if data \<noteq> VList [] then
               (case py_index data 0 of
                  Inl e \<Rightarrow> Inl e
                | Inr first \<Rightarrow>
               (case append_to ''injected_dll'' ''new'' first ds of
                  Inl e \<Rightarrow> Inl e
                | Inr ds1 \<Rightarrow>
               (case set_star ''injected_dll'' ds1 of
                  Inl e \<Rightarrow> Inl e
                | Inr ds2 \<Rightarrow> dump_hooks fx mhs ds2)))
             else dump_hooks fx mhs ds)))))"

text \<open>\<open>for t in threads: if t["TID"] == tid: ...["new"].append(t)\<close>\<close>

fun threads_with :: "int \<Rightarrow> pyval list \<Rightarrow> error + pyval list" where
  "threads_with tid [] = Inr []"
| "threads_with tid (t # ts) =
     (case subscript t ''TID'' of
        Inl e \<Rightarrow> Inl e
      | Inr v \<Rightarrow>
         (case threads_with tid ts of
            Inl e \<Rightarrow> Inl e
          | Inr rest \<Rightarrow> Inr (if v = VInt tid then t # rest else rest)))"

text \<open>
  The follow-up of each trigger (lines 542-621). \<open>monitorCPU\<close> is tested on its own;
  the others form one \<open>if\<close>/\<open>elif\<close> chain. In \<open>a[k].append(f(..))\<close> the list is
  looked up before the argument is computed. Making and removing directories leaves
  the result as it is and is left out.
\<close>

definition follow_monitorCPU :: "string \<Rightarrow> diffs \<Rightarrow> error + diffs" where
  "follow_monitorCPU trigger ds =
     (if trigger = ''monitorCPU'' then
        (case ds ''diff_heap_entropy'' of
           None \<Rightarrow> Inr ds
         | Some entry \<Rightarrow> set_star ''diff_heap_entropy'' ds)
      else Inr ds)"

definition follow_VirtualProtectEx :: "forensics \<Rightarrow> pydict \<Rightarrow> diffs \<Rightarrow> error + diffs" where
  "follow_VirtualProtectEx fx args ds =
     (case getitem args ''Protection'' of
        Inl e \<Rightarrow> Inl e
      | Inr protection \<Rightarrow>
     (case int16 fx protection of
        Inl e \<Rightarrow> Inl e
      | Inr code \<Rightarrow>
     (case PAGE_PROTECTIONS fx code of
        None \<Rightarrow> Inl KeyError
      | Some verbal_protect \<Rightarrow>
     (case filter (\<lambda>entry. snd entry = verbal_protect) (PROTECT_FLAGS fx) of
        [] \<Rightarrow> Inl IndexError
      | protect_vad_val # others \<Rightarrow>
         (let field = (if contains ''EXECUTE'' verbal_protect then ''new'' else ''deleted'') in
          case field_list ''diff_malfind'' field ds of
            Inl e \<Rightarrow> Inl e
          | Inr xs \<Rightarrow>
         (case getitem args ''ProcessId'' of
            Inl e \<Rightarrow> Inl e
          | Inr pid \<Rightarrow>
         (case getitem args ''Address'' of
            Inl e \<Rightarrow> Inl e
          | Inr address \<Rightarrow>
         (case int16 fx address of
            Inl e \<Rightarrow> Inl e
          | Inr addr \<Rightarrow>
         (case vol_malfind fx (contains ''EXECUTE'' verbal_protect) (to_str fx pid) addr of
            Inl e \<Rightarrow> Inl e
          | Inr found \<Rightarrow>
         (case append_to ''diff_malfind'' field found ds of
            Inl e \<Rightarrow> Inl e
          | Inr ds1 \<Rightarrow> set_star ''diff_malfind'' ds1))))))))))"

definition follow_LoadLibrary :: "forensics \<Rightarrow> pydict \<Rightarrow> diffs \<Rightarrow> error + diffs" where
  "follow_LoadLibrary fx args ds =
     (case getitem args ''ProcessId'' of
        Inl e \<Rightarrow> Inl e
      | Inr pid \<Rightarrow>
     (case getitem args ''BaseAddress'' of
        Inl e \<Rightarrow> Inl e
      | Inr base_address \<Rightarrow>
     (case int16 fx base_address of
        Inl e \<Rightarrow> Inl e
      | Inr base \<Rightarrow>
     (case vol_dlldump_base fx (to_str fx pid) base of
        Inl e \<Rightarrow> Inl e
      | Inr data \<Rightarrow>
          Inr (ds(''injected_dll'' \<mapsto>
                 fmupd ''star'' (VStr ''yes'')
                   (fmupd ''new'' data
                      (fmupd ''deleted'' (VList [])
                         (fmupd ''desc'' (VStr ''Finds the injected dll and dumps it'') fmempty)))))))))"

definition follow_ResumeThread :: "forensics \<Rightarrow> pydict \<Rightarrow> diffs \<Rightarrow> error + diffs" where
  "follow_ResumeThread fx args ds =
     (case getitem args ''ProcessId'' of
        Inl e \<Rightarrow> Inl e
      | Inr pid \<Rightarrow>
     (case getitem args ''ThreadId'' of
        Inl e \<Rightarrow> Inl e
      | Inr thread_id \<Rightarrow>
     (case to_int fx thread_id of
        Inl e \<Rightarrow> Inl e
      | Inr tid \<Rightarrow>
     (case vol_threads fx (to_str fx pid) of
        Inl e \<Rightarrow> Inl e
      | Inr threads \<Rightarrow>
     (case threads_with tid threads of
        Inl e \<Rightarrow> Inl e
      | Inr matching \<Rightarrow>
          Inr (ds(''injected_thread'' \<mapsto>
                 diff_entry ''yes'' ''Shows the injected thread'' matching)))))))"

definition follow_CreateRemoteThread :: "forensics \<Rightarrow> pydict \<Rightarrow> diffs \<Rightarrow> error + diffs" where
  "follow_CreateRemoteThread fx args ds =
     (case getitem args ''StartRoutine'' of
        Inl e \<Rightarrow> Inl e
      | Inr start_routine \<Rightarrow>
     (case int16 fx start_routine of
        Inl e \<Rightarrow> Inl e
      | Inr start \<Rightarrow>
     (case getitem args ''ProcessId'' of
        Inl e \<Rightarrow> Inl e
      | Inr pid \<Rightarrow>
     (case getitem args ''ThreadId'' of
        Inl e \<Rightarrow> Inl e
      | Inr thread_id \<Rightarrow>
     (case to_int fx thread_id of
        Inl e \<Rightarrow> Inl e
      | Inr tid \<Rightarrow>
     (case vol_threads fx (to_str fx pid) of
        Inl e \<Rightarrow> Inl e
      | Inr threads \<Rightarrow>
     (case threads_with tid threads of
        Inl e \<Rightarrow> Inl e
      | Inr matching \<Rightarrow>
          Inr (ds(''injected_thread'' \<mapsto>
                 fmupd ''disassembly'' (disasm fx (to_str fx pid) start)
                   (diff_entry ''yes'' ''Shows the injected thread'' matching))))))))))"

definition follow_up :: "forensics \<Rightarrow> string \<Rightarrow> pydict \<Rightarrow> diffs \<Rightarrow> error + diffs" where
  "follow_up fx trigger args ds =
     (if trigger = ''ZwLoadDriver'' then
        (case vol_patcher fx of Inl e \<Rightarrow> Inl e | Inr patches \<Rightarrow> dump_drivers fx patches ds)
      else if trigger = ''SetWindowsHookExA'' \<or> trigger = ''SetWindowsHookExW'' then
        (case ds ''diff_messagehooks'' of
           None \<Rightarrow> Inr ds
         | Some entry \<Rightarrow>
            (case field_list ''diff_messagehooks'' ''new'' ds of
               Inl e \<Rightarrow> Inl e
             | Inr hooks \<Rightarrow> dump_hooks fx hooks ds))
      else if trigger = ''VirtualProtectEx'' then follow_VirtualProtectEx fx args ds
      else if trigger = ''WriteProcessMemory -> CreateRemoteThread -> LoadLibrary'' then
        follow_LoadLibrary fx args ds
      else if trigger = ''NtSetContextThread -> NtResumeThread'' then
        follow_ResumeThread fx args ds
      else if trigger = ''WriteProcessMemory -> CreateRemoteThread'' then
        follow_CreateRemoteThread fx args ds
      else Inr ds)"

text \<open>
  \<^verbatim>\<open>
  if not self.is_clean:
      trigger = self.info["trigger"]["name"]
      args = self.info["trigger"]["args"]
      smart_analysis, plugins_to_run = self.parse_trigger_plugins(trigger)
      mem_analysis["diffs"]["injected_thread"] = {"new":[],"deleted":[],"star":"no", "desc":"Shows the injected thread"}
      mem_analysis["diffs"]["injected_dll"] = {"star" : "no", "new": [], "deleted": [], "desc" : "Finds the injected dll and dumps it"}
      ...
      if smart_analysis:
          if memoryanalysisconsts.TRIGGER_PLUGINS.has_key(trigger):
              for plugin in memoryanalysisconsts.TRIGGER_PLUGINS[trigger]: ...
          if trigger == "monitorCPU": ...
          if trigger == "ZwLoadDriver": ...
          elif ...
  return mem_analysis, new_results
  \<close>
  \<open>escalate\<close> is this last part of \<open>run_memory_analysis\<close>: \<open>ds\<close> is the result of the
  differencing of the enabled facets (lines 494-521), and the value is the DiffResult the
  pass returns.
\<close>

definition escalate ::
  "forensics \<Rightarrow> bool \<Rightarrow> string \<Rightarrow> pydict \<Rightarrow> diffs \<Rightarrow> error + diffs" where
  "escalate fx is_clean trigger args ds =
     (if is_clean then Inr ds
      else
        (let (smart_analysis, plugins_to_run) = parse_trigger_plugins fx trigger;
             ds1 = ds(''injected_thread'' \<mapsto> diff_entry ''no'' ''Shows the injected thread'' []);
             ds2 = ds1(''injected_dll'' \<mapsto> diff_entry ''no'' ''Finds the injected dll and dumps it'' [])
         in if smart_analysis then
              (let ds3 = (case TRIGGER_PLUGINS fx trigger of
                            None \<Rightarrow> ds2
                          | Some plugins \<Rightarrow> star_plugins plugins ds2)
               in case follow_monitorCPU trigger ds3 of
                    Inl e \<Rightarrow> Inl e
                  | Inr ds4 \<Rightarrow> follow_up fx trigger args ds4)
            else Inr ds2))"

text \<open>Nothing from outside is needed when the trigger has no follow-up of its own.\<close>

definition demo_forensics :: "string list \<Rightarrow> forensics" where
  "demo_forensics plugins =
     \<lparr>smart_conf = (\<lambda>trigger. Some (True, [])),
      TRIGGER_PLUGINS = (\<lambda>trigger. Some plugins),
      PAGE_PROTECTIONS = Map.empty, PROTECT_FLAGS = [],
      int16 = (\<lambda>v. Inl ExternalError), to_int = (\<lambda>v. Inl ExternalError), to_str = (\<lambda>v. v),
      find_pids = (\<lambda>v. Inl ExternalError), last_component = (\<lambda>v. Inl ExternalError),
      disasm = (\<lambda>pid start. VNone),
      vol_patcher = Inl ExternalError, vol_moddump = (\<lambda>base. Inl ExternalError),
      vol_dlldump_regex = (\<lambda>pid name. Inl ExternalError),
      vol_dlldump_base = (\<lambda>pid base. Inl ExternalError),
      vol_malfind = (\<lambda>dump pid address. Inl ExternalError),
      vol_threads = (\<lambda>pid. Inl ExternalError)\<rparr>"

text \<open>
  An entry is starred when its field \<open>star\<close> is \<open>"yes"\<close>. The entries \<open>injected_dll\<close> and
  \<open>injected_thread\<close> are made by this stage itself. A step from \<open>ds\<close> to \<open>ds'\<close> keeps the
  stars when it removes no entry, creates entries only for those two names and only
  starred ones, and leaves every starred entry starred.
\<close>

definition starred :: "pydict \<Rightarrow> bool" where
  "starred entry \<longleftrightarrow> fmlookup entry ''star'' = Some (VStr ''yes'')"

definition made_here :: "string \<Rightarrow> bool" where
  "made_here name \<longleftrightarrow> name = ''injected_dll'' \<or> name = ''injected_thread''"

definition keeps_stars :: "diffs \<Rightarrow> diffs \<Rightarrow> bool" where
  "keeps_stars ds ds' \<longleftrightarrow>
     (\<forall>p. ds' p = None \<longrightarrow> ds p = None)
     \<and> (\<forall>p e'. ds' p = Some e' \<longrightarrow>
           (starred e' \<and> (ds p \<noteq> None \<or> made_here p))
           \<or> (\<exists>e. ds p = Some e \<and> (starred e \<longrightarrow> starred e')))"

section \<open>The argument normalizer\<close>













section \<open>The facet resolver memoizes\<close>

lemma run_dependencies_Some:
  "results dep = Some v \<Longrightarrow>
     run_dependencies vm (results, st, calls) (dep # deps) = run_dependencies vm (results, st, calls) deps"
  by simp

lemma run_dependencies_None:
  assumes "results dep = None"
    and "run_dependencies vm (results, st, calls) (dep # deps) = Inr x"
  shows "\<exists>v st1. vm dep st = (Inr v, st1)
           \<and> run_dependencies vm (results(dep \<mapsto> v), st1, calls @ [dep]) deps = Inr x"
proof (cases "vm dep st")
  case (Pair r st1)
  show ?thesis
  proof (cases r)
    case (Inl e)
    with Pair assms show ?thesis by simp
  next
    case (Inr v)
    with Pair assms show ?thesis by simp
  qed
qed

lemma run_dependencies_present:
  "set deps \<subseteq> dom results \<Longrightarrow>
     run_dependencies vm (results, st, calls) deps = Inr (results, st, calls)"
proof (induction deps)
  case Nil
  show ?case by simp
next
  case (Cons dep deps)
  then obtain v where "results dep = Some v" by auto
  then show ?case using Cons by (simp only: run_dependencies_Some) simp
qed

lemma run_dependencies_keeps:
  "run_dependencies vm (results, st, calls) deps = Inr (results', st', calls') \<Longrightarrow>
     d \<in> dom results \<Longrightarrow> results' d = results d"
proof (induction deps arbitrary: results st calls)
  case Nil
  then show ?case by simp
next
  case (Cons dep deps)
  show ?case
  proof (cases "results dep")
    case (Some v)
    with Cons.prems(1) have "run_dependencies vm (results, st, calls) deps = Inr (results', st', calls')"
      by (simp only: run_dependencies_Some)
    from Cons.IH[OF this Cons.prems(2)] show ?thesis .
  next
    case None
    from run_dependencies_None[OF None Cons.prems(1)] obtain v st1 where
      rec: "run_dependencies vm (results(dep \<mapsto> v), st1, calls @ [dep]) deps
              = Inr (results', st', calls')" by blast
    have ne: "d \<noteq> dep" using None Cons.prems(2) by (auto simp: dom_def)
    have "d \<in> dom (results(dep \<mapsto> v))" using Cons.prems(2) by simp
    from Cons.IH[OF rec this] ne show ?thesis by simp
  qed
qed

lemma run_dependencies_dom:
  "run_dependencies vm (results, st, calls) deps = Inr (results', st', calls') \<Longrightarrow>
     dom results' = dom results \<union> set deps"
proof (induction deps arbitrary: results st calls)
  case Nil
  then show ?case by simp
next
  case (Cons dep deps)
  show ?case
  proof (cases "results dep")
    case (Some v)
    with Cons.prems have "run_dependencies vm (results, st, calls) deps = Inr (results', st', calls')"
      by (simp only: run_dependencies_Some)
    from Cons.IH[OF this] have "dom results' = dom results \<union> set deps" .
    moreover have "dep \<in> dom results" using Some by (simp add: dom_def)
    ultimately show ?thesis by auto
  next
    case None
    from run_dependencies_None[OF None Cons.prems] obtain v st1 where
      rec: "run_dependencies vm (results(dep \<mapsto> v), st1, calls @ [dep]) deps
              = Inr (results', st', calls')" by blast
    from Cons.IH[OF rec] have "dom results' = dom (results(dep \<mapsto> v)) \<union> set deps" .
    then show ?thesis by auto
  qed
qed

lemma run_dependencies_calls:
  "run_dependencies vm (results, st, calls) deps = Inr (results', st', calls') \<Longrightarrow>
     \<exists>new. calls' = calls @ new \<and> distinct new \<and> set new = set deps - dom results"
proof (induction deps arbitrary: results st calls)
  case Nil
  then show ?case by simp
next
  case (Cons dep deps)
  show ?case
  proof (cases "results dep")
    case (Some v)
    with Cons.prems have "run_dependencies vm (results, st, calls) deps = Inr (results', st', calls')"
      by (simp only: run_dependencies_Some)
    from Cons.IH[OF this] obtain new where
      new: "calls' = calls @ new" "distinct new" "set new = set deps - dom results" by blast
    have "dep \<in> dom results" using Some by (simp add: dom_def)
    then have "set new = set (dep # deps) - dom results" using new(3) by auto
    with new(1,2) show ?thesis by blast
  next
    case None
    from run_dependencies_None[OF None Cons.prems] obtain v st1 where
      rec: "run_dependencies vm (results(dep \<mapsto> v), st1, calls @ [dep]) deps
              = Inr (results', st', calls')" by blast
    from Cons.IH[OF rec] obtain new where
      new: "calls' = (calls @ [dep]) @ new" "distinct new"
           "set new = set deps - dom (results(dep \<mapsto> v))" by blast
    have nd: "dep \<notin> dom results" using None by (simp add: dom_def)
    have 3: "calls' = calls @ (dep # new)" using new(1) by simp
    have 4: "distinct (dep # new)" using new(2,3) by simp
    have 5: "set (dep # new) = set (dep # deps) - dom results" using new(3) nd by auto
    from 3 4 5 show ?thesis by blast
  qed
qed

text \<open>
  C4. When \<open>run_dependencies\<close> returns: every dependency that was already present keeps
  its stored value; the computations invoked are exactly the listed dependencies that
  were absent, each once; every listed dependency is present in the returned mapping;
  and running the same list again on the returned mapping invokes nothing and returns
  the same mapping and manager state.
\<close>

theorem run_dependencies_memoized:
  assumes "run_dependencies vm (results, st, calls) deps = Inr (results', st', calls')"
  shows "(\<forall>d. d \<in> dom results \<longrightarrow> results' d = results d)
     \<and> (\<exists>new. calls' = calls @ new \<and> distinct new \<and> set new = set deps - dom results)
     \<and> set deps \<subseteq> dom results'
     \<and> run_dependencies vm (results', st', calls') deps = Inr (results', st', calls')"
proof -
  have sub: "set deps \<subseteq> dom results'"
    using run_dependencies_dom[OF assms] by simp
  have keep: "\<forall>d. d \<in> dom results \<longrightarrow> results' d = results d"
    using run_dependencies_keeps[OF assms] by simp
  from keep run_dependencies_calls[OF assms] sub run_dependencies_present[OF sub]
  show ?thesis by (intro conjI)
qed

theorem run_dependencies_memoized_witness:
  "run_dependencies demo_vm ([''dlllist'' \<mapsto> 99], 0, []) [''pslist'', ''dlllist'', ''pslist'']
     = Inr ([''dlllist'' \<mapsto> 99, ''pslist'' \<mapsto> 6], 1, [''pslist''])
   \<and> [''dlllist'' \<mapsto> 99, ''pslist'' \<mapsto> 6] ''dlllist'' = [''dlllist'' \<mapsto> (99::nat)] ''dlllist''
   \<and> set [''pslist'', ''dlllist'', ''pslist''] \<subseteq> dom [''dlllist'' \<mapsto> 99, ''pslist'' \<mapsto> (6::nat)]
   \<and> run_dependencies demo_vm ([''dlllist'' \<mapsto> 99, ''pslist'' \<mapsto> 6], 1, [''pslist''])
        [''pslist'', ''dlllist'', ''pslist'']
     = Inr ([''dlllist'' \<mapsto> 99, ''pslist'' \<mapsto> 6], 1, [''pslist''])"
proof -
  have run: "run_dependencies demo_vm ([''dlllist'' \<mapsto> 99], 0, []) [''pslist'', ''dlllist'', ''pslist'']
     = Inr ([''dlllist'' \<mapsto> 99, ''pslist'' \<mapsto> 6], 1, [''pslist''])"
    by (simp add: demo_vm_def)
  note m = run_dependencies_memoized[OF run]
  have keep: "[''dlllist'' \<mapsto> 99, ''pslist'' \<mapsto> 6] ''dlllist'' = [''dlllist'' \<mapsto> (99::nat)] ''dlllist''"
    using m[THEN conjunct1, THEN spec, of "''dlllist''"] by simp
  from run keep m[THEN conjunct2, THEN conjunct2] show ?thesis
    by (intro conjI) (erule conjunct1 conjunct2 | assumption)+
qed

section \<open>The length guard of the legacy field readers\<close>

lemma read_string_length_guard:
  assumes "8 \<le> length stream" "0x10000 < le_nat (take 4 stream)"
  shows "read_string stream = (Inl CuckooResultError, drop 8 stream)"
  using assms by (simp add: read_string_def read_def unpack_II_def)

lemma length_oversized_payload: "length oversized_payload = 65537"
  unfolding oversized_payload_def by (rule length_replicate)

lemma oversized_header_facts:
  "length oversized_header = 8"
  "le_nat (take 4 oversized_header) = 65537"
  "le_nat (drop 4 oversized_header) = 65537"
  by (simp_all add: oversized_header_def le_nat_def)

text \<open>
  C2. The length guard is in \<open>read_string\<close> only. On a field that declares \<open>0x10001\<close>
  bytes, \<open>read_string\<close> raises \<open>CuckooResultError\<close> and leaves the payload unread, while
  \<open>read_buffer\<close> raises nothing and consumes all \<open>0x10001\<close> bytes of it.
\<close>

theorem read_buffer_unguarded:
  "read_buffer (oversized_header @ oversized_payload) = (Inr oversized_payload, [])
   \<and> read_string (oversized_header @ oversized_payload) = (Inl CuckooResultError, oversized_payload)
   \<and> length oversized_payload = 0x10001"
  using length_oversized_payload oversized_header_facts
  by (simp add: read_buffer_def read_string_def read_def unpack_II_def)

section \<open>The trigger guard and the fire count\<close>

lemma foldl_pdb_fields:
  "source (foldl run_pdb_command s cs) = source s
   \<and> infomap (foldl run_pdb_command s cs) = infomap s
   \<and> has_server (foldl run_pdb_command s cs) = has_server s
   \<and> has_set_apis (foldl run_pdb_command s cs) = has_set_apis s
   \<and> apis (foldl run_pdb_command s cs) = apis s
   \<and> fire_counts (foldl run_pdb_command s cs) = fire_counts s
   \<and> evaluated (foldl run_pdb_command s cs) = evaluated s
   \<and> trace (foldl run_pdb_command s cs) = trace s"
proof (induction cs arbitrary: s)
  case Nil
  show ?case by simp
next
  case (Cons c cs)
  show ?case using Cons[of "run_pdb_command s c"]
    by (cases c) (simp_all add: set_bp_def set_volshell_bp_def)
qed

lemma call_volshell_core: "same_core s (snd (call_volshell s))"
  by (simp add: same_core_def call_volshell_def request_def Let_def split: option.splits)

lemma breakpoint_core: "same_core s (snd (breakpoint s))"
  by (simp add: same_core_def breakpoint_def request_def Let_def foldl_pdb_fields
      split: list.splits option.splits)

lemma call_volshell_not_raised: "fst (call_volshell s) \<noteq> Raised e"
  by (simp add: call_volshell_def Let_def split: option.splits)

lemma breakpoint_not_raised: "fst (breakpoint s) \<noteq> Raised e"
  by (simp add: breakpoint_def Let_def split: list.splits option.splits)

lemma fire_fields:
  "source (snd (fire opts apiname argdict s)) = source s
   \<and> infomap (snd (fire opts apiname argdict s)) = infomap s
   \<and> has_server (snd (fire opts apiname argdict s)) = has_server s
   \<and> has_set_apis (snd (fire opts apiname argdict s)) = has_set_apis s
   \<and> apis (snd (fire opts apiname argdict s)) = apis s
   \<and> evaluated (snd (fire opts apiname argdict s)) = evaluated s
   \<and> fire_counts (snd (fire opts apiname argdict s))
       = (fire_counts s)(apiname := fire_counts s apiname - 1)"
proof -
  define s1 where "s1 = reduce_times apiname s"
  define s2 where "s2 = (if rule_dump_memory opts then request (DumpMemory apiname argdict) s1 else s1)"
  define r where "r = (if rule_break_on_volshell opts \<or> apiname \<in> set (get_volshell_bps s2)
               then call_volshell s2 else (Returned (), s2))"
  have c2: "same_core s1 s2" by (simp add: s2_def same_core_def request_def)
  have c3: "same_core s2 (snd r)" using call_volshell_core[of s2]
    by (simp add: r_def same_core_def)
  have f: "fire opts apiname argdict s =
      (case r of (Returned u, s3) \<Rightarrow>
             (if rule_breakpoint opts \<or> apiname \<in> set (get_bps s3)
              then breakpoint s3 else (Returned (), s3))
         | (Raised e, s3) \<Rightarrow> (Raised e, s3)
         | (Blocked, s3) \<Rightarrow> (Blocked, s3))"
    by (simp add: fire_def s1_def s2_def r_def Let_def)
  have c4: "same_core (snd r) (snd (fire opts apiname argdict s))"
    unfolding f using breakpoint_core[of "snd r"]
    by (cases r; cases "fst r") (auto simp: same_core_def)
  have s1: "source s1 = source s" "infomap s1 = infomap s" "has_server s1 = has_server s"
    "has_set_apis s1 = has_set_apis s" "apis s1 = apis s" "evaluated s1 = evaluated s"
    "fire_counts s1 = (fire_counts s)(apiname := fire_counts s apiname - 1)"
    by (simp_all add: s1_def reduce_times_def)
  from c2 c3 c4 s1 show ?thesis by (simp add: same_core_def)
qed


lemma armed_evaluated:
  "armed ext apiname (s\<lparr>evaluated := ev\<rparr>) = armed ext apiname s"
  by (simp add: armed_def get_times_def)

lemma armed_iff:
  "armed ext apiname s \<longleftrightarrow>
     triggered_dumps ext \<and> (\<exists>opts. conf ext apiname = Some opts \<and> rule_enabled opts)
     \<and> has_server s \<and> 0 < get_times s apiname"
  by (auto simp: armed_def split: option.splits)

lemma execute_not_armed:
  "\<not> armed ext apiname s \<Longrightarrow>
     execute_trigger_parameters ext apiname argdict s
       = (Returned (), s\<lparr>evaluated := evaluated s @ [apiname]\<rparr>)"
  by (simp add: execute_trigger_parameters_def Let_def armed_evaluated)

lemma execute_armed:
  assumes "armed ext apiname s"
  shows "\<exists>opts. conf ext apiname = Some opts \<and>
     execute_trigger_parameters ext apiname argdict s
       = fire opts apiname argdict (s\<lparr>evaluated := evaluated s @ [apiname]\<rparr>)"
proof -
  from assms obtain opts where c: "conf ext apiname = Some opts"
    by (auto simp: armed_def split: option.splits)
  with assms show ?thesis
    by (simp add: execute_trigger_parameters_def Let_def armed_evaluated)
qed

lemma execute_fields:
  "source (snd (execute_trigger_parameters ext apiname argdict s)) = source s
   \<and> infomap (snd (execute_trigger_parameters ext apiname argdict s)) = infomap s
   \<and> has_server (snd (execute_trigger_parameters ext apiname argdict s)) = has_server s
   \<and> has_set_apis (snd (execute_trigger_parameters ext apiname argdict s)) = has_set_apis s
   \<and> apis (snd (execute_trigger_parameters ext apiname argdict s)) = apis s
   \<and> evaluated (snd (execute_trigger_parameters ext apiname argdict s)) = evaluated s @ [apiname]"
proof (cases "armed ext apiname s")
  case True
  from execute_armed[OF True, of argdict] obtain opts where
    e: "execute_trigger_parameters ext apiname argdict s
       = fire opts apiname argdict (s\<lparr>evaluated := evaluated s @ [apiname]\<rparr>)" by blast
  show ?thesis unfolding e
    using fire_fields[of opts apiname argdict "s\<lparr>evaluated := evaluated s @ [apiname]\<rparr>"]
    by simp
next
  case False
  then show ?thesis by (simp add: execute_not_armed)
qed

text \<open>
  C8, as the code has it. A trigger evaluation does nothing (no memory dump, no
  interactive session, no breakpoint, fire count unchanged; only the model's record of
  evaluations grows) unless triggered dumps are switched on, the rule is present and
  enabled, the handler has a server and the remaining fire count is positive; in that
  case the remaining fire count of the rule is decremented by exactly one and no other
  count changes.
\<close>

theorem execute_trigger_parameters_guard:
  "(\<not> (triggered_dumps ext \<and> (\<exists>opts. conf ext apiname = Some opts \<and> rule_enabled opts)
        \<and> has_server s \<and> 0 < get_times s apiname)
     \<longrightarrow> execute_trigger_parameters ext apiname argdict s
           = (Returned (), s\<lparr>evaluated := evaluated s @ [apiname]\<rparr>))
   \<and> (triggered_dumps ext \<and> (\<exists>opts. conf ext apiname = Some opts \<and> rule_enabled opts)
        \<and> has_server s \<and> 0 < get_times s apiname
     \<longrightarrow> get_times (snd (execute_trigger_parameters ext apiname argdict s)) apiname
           = get_times s apiname - 1
         \<and> (\<forall>other. other \<noteq> apiname \<longrightarrow>
               get_times (snd (execute_trigger_parameters ext apiname argdict s)) other
                 = get_times s other))"
proof (cases "armed ext apiname s")
  case True
  from execute_armed[OF True, of argdict] obtain opts where
    e: "execute_trigger_parameters ext apiname argdict s
       = fire opts apiname argdict (s\<lparr>evaluated := evaluated s @ [apiname]\<rparr>)" by blast
  have "fire_counts (snd (execute_trigger_parameters ext apiname argdict s))
       = (fire_counts s)(apiname := fire_counts s apiname - 1)"
    unfolding e
    using fire_fields[of opts apiname argdict "s\<lparr>evaluated := evaluated s @ [apiname]\<rparr>"]
    by simp
  then have "get_times (snd (execute_trigger_parameters ext apiname argdict s)) apiname
           = get_times s apiname - 1
         \<and> (\<forall>other. other \<noteq> apiname \<longrightarrow>
               get_times (snd (execute_trigger_parameters ext apiname argdict s)) other
                 = get_times s other)"
    by (simp add: get_times_def)
  with True show ?thesis unfolding armed_iff by blast
next
  case False
  from execute_not_armed[OF False, of argdict] False show ?thesis
    unfolding armed_iff by blast
qed

lemma demo_armed: "armed (demo_externals True) ''socket'' (demo_session [])"
  by (simp add: armed_def demo_externals_def demo_session_def demo_options_def get_times_def)

theorem execute_trigger_parameters_guard_witness:
  "get_times (snd (execute_trigger_parameters (demo_externals True) ''socket'' fmempty
                     (demo_session []))) ''socket'' = 2
   \<and> execute_trigger_parameters (demo_externals True) ''connect'' fmempty (demo_session [])
       = (Returned (), (demo_session [])\<lparr>evaluated := evaluated (demo_session []) @ [''connect'']\<rparr>)"
proof -
  have a: "triggered_dumps (demo_externals True)
        \<and> (\<exists>opts. conf (demo_externals True) ''socket'' = Some opts \<and> rule_enabled opts)
        \<and> has_server (demo_session []) \<and> 0 < get_times (demo_session []) ''socket''"
    using demo_armed unfolding armed_iff .
  have b: "\<not> (triggered_dumps (demo_externals True)
        \<and> (\<exists>opts. conf (demo_externals True) ''connect'' = Some opts \<and> rule_enabled opts)
        \<and> has_server (demo_session []) \<and> 0 < get_times (demo_session []) ''connect'')"
    by (simp add: demo_externals_def chain3_def)
  have t: "get_times (demo_session []) ''socket'' = 3"
    by (simp add: get_times_def demo_session_def)
  from execute_trigger_parameters_guard[of "demo_externals True" "''socket''" "demo_session []" fmempty,
      THEN conjunct2, rule_format, OF a, THEN conjunct1]
  have 1: "get_times (snd (execute_trigger_parameters (demo_externals True) ''socket'' fmempty
                     (demo_session []))) ''socket'' = 2"
    unfolding t by simp
  from execute_trigger_parameters_guard[of "demo_externals True" "''connect''" "demo_session []" fmempty,
      THEN conjunct1, rule_format, OF b]
  have 2: "execute_trigger_parameters (demo_externals True) ''connect'' fmempty (demo_session [])
       = (Returned (), (demo_session [])\<lparr>evaluated := evaluated (demo_session []) @ [''connect'']\<rparr>)" .
  from 1 2 show ?thesis by (intro conjI)
qed

text \<open>
  C8 as stated fails: with \<open>triggered_dumps\<close> switched off, a rule that is present and
  enabled with three fires left is evaluated, and its fire count stays at three.
\<close>

theorem fire_count_kept_when_dumps_off:
  "conf (demo_externals False) ''socket'' = Some demo_options
   \<and> rule_enabled demo_options
   \<and> 0 < get_times (demo_session []) ''socket''
   \<and> get_times (snd (execute_trigger_parameters (demo_externals False) ''socket'' fmempty
                       (demo_session []))) ''socket''
       = get_times (demo_session []) ''socket''"
  by (simp add: execute_trigger_parameters_def armed_def Let_def demo_externals_def
      demo_session_def demo_options_def get_times_def)

section \<open>The three-step injection chain\<close>

lemma load_library_loop_skip:
  assumes "name \<noteq> VStr ''CreateRemoteThread''
           \<or> (\<exists>h p. arg args ''ProcessHandle'' = Inr h \<and> arg args ''ProcessId'' = Inr p
                  \<and> \<not> (h = wh \<and> p = pid))"
    and "arg write_proc_args ''ProcessHandle'' = Inr wh"
    and "arg argdict ''ProcessId'' = Inr pid"
  shows "load_library_loop ext write_proc_args argdict ((name, args) # rest) s
           = load_library_loop ext write_proc_args argdict rest s"
  using assms by auto

lemma load_library_loop_hit:
  assumes "arg args ''ProcessHandle'' = Inr wh" "arg args ''ProcessId'' = Inr pid"
    and "arg write_proc_args ''ProcessHandle'' = Inr wh"
    and "arg argdict ''ProcessId'' = Inr pid"
  shows "load_library_loop ext write_proc_args argdict ((VStr ''CreateRemoteThread'', args) # rest) s
           = (case execute_trigger_parameters ext
                     ''WriteProcessMemory -> CreateRemoteThread -> LoadLibrary'' argdict s of
                (Returned u, s1) \<Rightarrow>
                  (Returned (),
                   remove_from_apis (VStr ''CreateRemoteThread'', args)
                     (remove_from_apis (VStr ''WriteProcessMemory'', write_proc_args) s1))
              | (Raised e, s1) \<Rightarrow> (Raised e, s1)
              | (Blocked, s1) \<Rightarrow> (Blocked, s1))"
  using assms by simp

lemma load_library_loop_no_match:
  assumes wf: "\<forall>(name, a) \<in> set xs. name = VStr ''CreateRemoteThread'' \<longrightarrow>
                 (\<exists>h p. arg a ''ProcessHandle'' = Inr h \<and> arg a ''ProcessId'' = Inr p)"
    and w: "arg write_proc_args ''ProcessHandle'' = Inr wh"
    and p: "arg argdict ''ProcessId'' = Inr pid"
    and none: "\<forall>(name, a) \<in> set xs. name = VStr ''CreateRemoteThread'' \<longrightarrow>
                 \<not> (arg a ''ProcessHandle'' = Inr wh \<and> arg a ''ProcessId'' = Inr pid)"
  shows "load_library_loop ext write_proc_args argdict xs s = (Returned (), s)"
  using wf none
proof (induction xs)
  case Nil
  show ?case by simp
next
  case (Cons x xs)
  obtain name a where x: "x = (name, a)" by (cases x)
  have skip: "name \<noteq> VStr ''CreateRemoteThread''
           \<or> (\<exists>h p. arg a ''ProcessHandle'' = Inr h \<and> arg a ''ProcessId'' = Inr p
                  \<and> \<not> (h = wh \<and> p = pid))"
    using Cons.prems x by auto
  have "load_library_loop ext write_proc_args argdict xs s = (Returned (), s)"
    using Cons by simp
  then show ?case unfolding x
    by (simp only: load_library_loop_skip[OF skip w p])
qed

lemma load_library_loop_match:
  assumes wf: "\<forall>(name, a) \<in> set xs. name = VStr ''CreateRemoteThread'' \<longrightarrow>
                 (\<exists>h p. arg a ''ProcessHandle'' = Inr h \<and> arg a ''ProcessId'' = Inr p)"
    and w: "arg write_proc_args ''ProcessHandle'' = Inr wh"
    and p: "arg argdict ''ProcessId'' = Inr pid"
    and some: "\<exists>a. (VStr ''CreateRemoteThread'', a) \<in> set xs
                 \<and> arg a ''ProcessHandle'' = Inr wh \<and> arg a ''ProcessId'' = Inr pid"
  shows "\<exists>a. (VStr ''CreateRemoteThread'', a) \<in> set xs
           \<and> arg a ''ProcessHandle'' = Inr wh \<and> arg a ''ProcessId'' = Inr pid
           \<and> load_library_loop ext write_proc_args argdict xs s
               = (case execute_trigger_parameters ext
                     ''WriteProcessMemory -> CreateRemoteThread -> LoadLibrary'' argdict s of
                    (Returned u, s1) \<Rightarrow>
                      (Returned (),
                       remove_from_apis (VStr ''CreateRemoteThread'', a)
                         (remove_from_apis (VStr ''WriteProcessMemory'', write_proc_args) s1))
                  | (Raised e, s1) \<Rightarrow> (Raised e, s1)
                  | (Blocked, s1) \<Rightarrow> (Blocked, s1))"
  using wf some
proof (induction xs)
  case Nil
  then show ?case by simp
next
  case (Cons x xs)
  obtain name a where x: "x = (name, a)" by (cases x)
  show ?case
  proof (cases "name = VStr ''CreateRemoteThread''
                 \<and> arg a ''ProcessHandle'' = Inr wh \<and> arg a ''ProcessId'' = Inr pid")
    case True
    then have hit: "arg a ''ProcessHandle'' = Inr wh" "arg a ''ProcessId'' = Inr pid"
      and n: "name = VStr ''CreateRemoteThread''" by simp_all
    show ?thesis unfolding x n
      using load_library_loop_hit[OF hit w p, of ext xs s] hit
      by (intro exI[of _ a]) simp
  next
    case False
    have skip: "name \<noteq> VStr ''CreateRemoteThread''
           \<or> (\<exists>h p. arg a ''ProcessHandle'' = Inr h \<and> arg a ''ProcessId'' = Inr p
                  \<and> \<not> (h = wh \<and> p = pid))"
      using Cons.prems(1) x False by auto
    have wf': "\<forall>(name, a) \<in> set xs. name = VStr ''CreateRemoteThread'' \<longrightarrow>
                 (\<exists>h p. arg a ''ProcessHandle'' = Inr h \<and> arg a ''ProcessId'' = Inr p)"
      using Cons.prems(1) by simp
    have some': "\<exists>a. (VStr ''CreateRemoteThread'', a) \<in> set xs
                 \<and> arg a ''ProcessHandle'' = Inr wh \<and> arg a ''ProcessId'' = Inr pid"
      using Cons.prems(2) False x by auto
    from Cons.IH[OF wf' some'] obtain b where
      b: "(VStr ''CreateRemoteThread'', b) \<in> set xs"
         "arg b ''ProcessHandle'' = Inr wh" "arg b ''ProcessId'' = Inr pid"
         "load_library_loop ext write_proc_args argdict xs s
               = (case execute_trigger_parameters ext
                     ''WriteProcessMemory -> CreateRemoteThread -> LoadLibrary'' argdict s of
                    (Returned u, s1) \<Rightarrow>
                      (Returned (),
                       remove_from_apis (VStr ''CreateRemoteThread'', b)
                         (remove_from_apis (VStr ''WriteProcessMemory'', write_proc_args) s1))
                  | (Raised e, s1) \<Rightarrow> (Raised e, s1)
                  | (Blocked, s1) \<Rightarrow> (Blocked, s1))"
      by blast
    have "load_library_loop ext write_proc_args argdict (x # xs) s
            = load_library_loop ext write_proc_args argdict xs s"
      unfolding x by (rule load_library_loop_skip[OF skip w p])
    with b show ?thesis by (intro exI[of _ b]) simp
  qed
qed


lemma chain_LdrLoadDll_gate:
  "\<not> has_server s \<or> first_named ''WriteProcessMemory'' (apis s) = None \<Longrightarrow>
     chain_LdrLoadDll ext argdict s = (Returned (), s)"
  by (auto simp: chain_LdrLoadDll_def get_apis_def)

text \<open>
  C1, as the code has it. The handler has a server, the \<open>CreateRemoteThread\<close> entries
  of the Call History carry \<open>ProcessHandle\<close> and \<open>ProcessId\<close>, the oldest
  \<open>WriteProcessMemory\<close> entry carries \<open>ProcessHandle\<close>, and the \<open>LdrLoadDll\<close> event
  carries \<open>ProcessId\<close>. If some \<open>CreateRemoteThread\<close> entry has the \<open>ProcessHandle\<close> of
  the oldest \<open>WriteProcessMemory\<close> entry and the \<open>ProcessId\<close> of the event, then the
  trigger \<open>WriteProcessMemory -> CreateRemoteThread -> LoadLibrary\<close> is evaluated exactly
  once, the branch ends as that evaluation ends, and when it returns, one occurrence of
  that \<open>WriteProcessMemory\<close> entry and of such a \<open>CreateRemoteThread\<close> entry are removed
  from the history. If no \<open>CreateRemoteThread\<close> entry matches the oldest
  \<open>WriteProcessMemory\<close> entry in this way (or there is none), nothing is evaluated and
  the session is unchanged.
\<close>

theorem load_library_chain:
  assumes srv: "has_server s"
    and wf: "\<forall>(name, a) \<in> set (apis s). name = VStr ''CreateRemoteThread'' \<longrightarrow>
               (\<exists>h p. arg a ''ProcessHandle'' = Inr h \<and> arg a ''ProcessId'' = Inr p)"
    and wfw: "\<forall>wpa. first_named ''WriteProcessMemory'' (apis s) = Some wpa \<longrightarrow>
               (\<exists>wh. arg wpa ''ProcessHandle'' = Inr wh)"
    and p: "arg argdict ''ProcessId'' = Inr pid"
  shows "(\<forall>wpa. first_named ''WriteProcessMemory'' (apis s) = Some wpa
            \<and> (\<exists>a. (VStr ''CreateRemoteThread'', a) \<in> set (apis s)
                   \<and> arg a ''ProcessHandle'' = arg wpa ''ProcessHandle''
                   \<and> arg a ''ProcessId'' = arg argdict ''ProcessId'')
          \<longrightarrow> (\<exists>a. (VStr ''CreateRemoteThread'', a) \<in> set (apis s)
                   \<and> arg a ''ProcessHandle'' = arg wpa ''ProcessHandle''
                   \<and> arg a ''ProcessId'' = arg argdict ''ProcessId''
                   \<and> evaluated (snd (chain_LdrLoadDll ext argdict s))
                       = evaluated s @ [''WriteProcessMemory -> CreateRemoteThread -> LoadLibrary'']
                   \<and> fst (chain_LdrLoadDll ext argdict s)
                       = fst (execute_trigger_parameters ext
                               ''WriteProcessMemory -> CreateRemoteThread -> LoadLibrary'' argdict s)
                   \<and> (fst (chain_LdrLoadDll ext argdict s) = Returned () \<longrightarrow>
                        apis (snd (chain_LdrLoadDll ext argdict s))
                          = remove1 (VStr ''CreateRemoteThread'', a)
                              (remove1 (VStr ''WriteProcessMemory'', wpa) (apis s)))))
     \<and> (\<not> (\<exists>wpa a. first_named ''WriteProcessMemory'' (apis s) = Some wpa
                   \<and> (VStr ''CreateRemoteThread'', a) \<in> set (apis s)
                   \<and> arg a ''ProcessHandle'' = arg wpa ''ProcessHandle''
                   \<and> arg a ''ProcessId'' = arg argdict ''ProcessId'')
          \<longrightarrow> chain_LdrLoadDll ext argdict s = (Returned (), s))"
proof (cases "first_named ''WriteProcessMemory'' (apis s)")
  case None
  then have "chain_LdrLoadDll ext argdict s = (Returned (), s)"
    by (simp add: chain_LdrLoadDll_gate)
  with None show ?thesis by simp
next
  case (Some wpa)
  from wfw Some obtain wh where w: "arg wpa ''ProcessHandle'' = Inr wh" by blast
  let ?E = "execute_trigger_parameters ext
              ''WriteProcessMemory -> CreateRemoteThread -> LoadLibrary'' argdict s"
  have chain: "chain_LdrLoadDll ext argdict s = load_library_loop ext wpa argdict (apis s) s"
    using srv Some by (simp add: chain_LdrLoadDll_def get_apis_def)
  show ?thesis
  proof (cases "\<exists>a. (VStr ''CreateRemoteThread'', a) \<in> set (apis s)
                 \<and> arg a ''ProcessHandle'' = Inr wh \<and> arg a ''ProcessId'' = Inr pid")
    case True
    from load_library_loop_match[OF wf w p True, of ext s] obtain a where
      a: "(VStr ''CreateRemoteThread'', a) \<in> set (apis s)"
         "arg a ''ProcessHandle'' = Inr wh" "arg a ''ProcessId'' = Inr pid"
      and run: "load_library_loop ext wpa argdict (apis s) s
               = (case ?E of
                    (Returned u, s1) \<Rightarrow>
                      (Returned (),
                       remove_from_apis (VStr ''CreateRemoteThread'', a)
                         (remove_from_apis (VStr ''WriteProcessMemory'', wpa) s1))
                  | (Raised e, s1) \<Rightarrow> (Raised e, s1)
                  | (Blocked, s1) \<Rightarrow> (Blocked, s1))"
      by blast
    note f = execute_fields[of ext "''WriteProcessMemory -> CreateRemoteThread -> LoadLibrary''" argdict s]
    obtain out s1 where E: "?E = (out, s1)" by (cases ?E)
    have s1: "apis s1 = apis s"
      "evaluated s1 = evaluated s @ [''WriteProcessMemory -> CreateRemoteThread -> LoadLibrary'']"
      using f E by simp_all
    have ev: "evaluated (snd (chain_LdrLoadDll ext argdict s))
                = evaluated s @ [''WriteProcessMemory -> CreateRemoteThread -> LoadLibrary'']"
      unfolding chain run E using s1 by (cases out) (simp_all add: remove_from_apis_def)
    have out: "fst (chain_LdrLoadDll ext argdict s) = fst ?E"
      unfolding chain run E by (cases out) simp_all
    have rm: "fst (chain_LdrLoadDll ext argdict s) = Returned () \<longrightarrow>
                apis (snd (chain_LdrLoadDll ext argdict s))
                  = remove1 (VStr ''CreateRemoteThread'', a)
                      (remove1 (VStr ''WriteProcessMemory'', wpa) (apis s))"
      unfolding chain run E using s1 by (cases out) (simp_all add: remove_from_apis_def)
    have "\<exists>a. (VStr ''CreateRemoteThread'', a) \<in> set (apis s)
                   \<and> arg a ''ProcessHandle'' = arg wpa ''ProcessHandle''
                   \<and> arg a ''ProcessId'' = arg argdict ''ProcessId''
                   \<and> evaluated (snd (chain_LdrLoadDll ext argdict s))
                       = evaluated s @ [''WriteProcessMemory -> CreateRemoteThread -> LoadLibrary'']
                   \<and> fst (chain_LdrLoadDll ext argdict s) = fst ?E
                   \<and> (fst (chain_LdrLoadDll ext argdict s) = Returned () \<longrightarrow>
                        apis (snd (chain_LdrLoadDll ext argdict s))
                          = remove1 (VStr ''CreateRemoteThread'', a)
                              (remove1 (VStr ''WriteProcessMemory'', wpa) (apis s)))"
      using a w p ev out rm by (intro exI[of _ a]) simp
    moreover have "\<exists>wpa a. first_named ''WriteProcessMemory'' (apis s) = Some wpa
                   \<and> (VStr ''CreateRemoteThread'', a) \<in> set (apis s)
                   \<and> arg a ''ProcessHandle'' = arg wpa ''ProcessHandle''
                   \<and> arg a ''ProcessId'' = arg argdict ''ProcessId''"
      using Some a w p by (intro exI[of _ wpa] exI[of _ a]) simp
    ultimately show ?thesis using Some by simp
  next
    case False
    then have none: "\<forall>(name, a) \<in> set (apis s). name = VStr ''CreateRemoteThread'' \<longrightarrow>
                 \<not> (arg a ''ProcessHandle'' = Inr wh \<and> arg a ''ProcessId'' = Inr pid)"
      by auto
    have "chain_LdrLoadDll ext argdict s = (Returned (), s)"
      unfolding chain by (rule load_library_loop_no_match[OF wf w p none])
    moreover have "\<not> (\<exists>a. (VStr ''CreateRemoteThread'', a) \<in> set (apis s)
                   \<and> arg a ''ProcessHandle'' = arg wpa ''ProcessHandle''
                   \<and> arg a ''ProcessId'' = arg argdict ''ProcessId'')"
      using False w p by simp
    ultimately show ?thesis using Some by simp
  qed
qed


theorem load_library_chain_witness:
  "fst (chain_LdrLoadDll (demo_externals True) (ldr_args 9)
          (demo_session [(VStr ''WriteProcessMemory'', wpm_args 1),
                         (VStr ''CreateRemoteThread'', crt_args 1 9)])) = Returned ()
   \<and> evaluated (snd (chain_LdrLoadDll (demo_externals True) (ldr_args 9)
          (demo_session [(VStr ''WriteProcessMemory'', wpm_args 1),
                         (VStr ''CreateRemoteThread'', crt_args 1 9)])))
       = [''WriteProcessMemory -> CreateRemoteThread -> LoadLibrary'']
   \<and> apis (snd (chain_LdrLoadDll (demo_externals True) (ldr_args 9)
          (demo_session [(VStr ''WriteProcessMemory'', wpm_args 1),
                         (VStr ''CreateRemoteThread'', crt_args 1 9)]))) = []
   \<and> chain_LdrLoadDll (demo_externals True) (ldr_args 9) (demo_session [])
       = (Returned (), demo_session [])"
proof -
  let ?h = "[(VStr ''WriteProcessMemory'', wpm_args 1), (VStr ''CreateRemoteThread'', crt_args 1 9)]"
  let ?s = "demo_session ?h"
  let ?R = "chain_LdrLoadDll (demo_externals True) (ldr_args 9) ?s"
  have ap: "apis ?s = ?h" and srv: "has_server ?s" by (simp_all add: demo_session_def)
  have first: "first_named ''WriteProcessMemory'' (apis ?s) = Some (wpm_args 1)"
    unfolding ap by simp
  have wf: "\<forall>(name, a) \<in> set (apis ?s). name = VStr ''CreateRemoteThread'' \<longrightarrow>
               (\<exists>h p. arg a ''ProcessHandle'' = Inr h \<and> arg a ''ProcessId'' = Inr p)"
    unfolding ap by (simp add: crt_args_def arg_def)
  have wfw: "\<forall>wpa. first_named ''WriteProcessMemory'' (apis ?s) = Some wpa \<longrightarrow>
               (\<exists>wh. arg wpa ''ProcessHandle'' = Inr wh)"
    unfolding first by (simp add: wpm_args_def arg_def)
  have p: "arg (ldr_args 9) ''ProcessId'' = Inr (VInt 9)"
    by (simp add: ldr_args_def arg_def)
  have m: "first_named ''WriteProcessMemory'' (apis ?s) = Some (wpm_args 1)
            \<and> (\<exists>a. (VStr ''CreateRemoteThread'', a) \<in> set (apis ?s)
                   \<and> arg a ''ProcessHandle'' = arg (wpm_args 1) ''ProcessHandle''
                   \<and> arg a ''ProcessId'' = arg (ldr_args 9) ''ProcessId'')"
    unfolding ap by (simp add: crt_args_def wpm_args_def ldr_args_def arg_def)
  from load_library_chain[OF srv wf wfw p, of "demo_externals True", THEN conjunct1, rule_format, OF m]
  obtain a where a: "(VStr ''CreateRemoteThread'', a) \<in> set (apis ?s)"
    and ev: "evaluated (snd ?R)
               = evaluated ?s @ [''WriteProcessMemory -> CreateRemoteThread -> LoadLibrary'']"
    and out: "fst ?R = fst (execute_trigger_parameters (demo_externals True)
                ''WriteProcessMemory -> CreateRemoteThread -> LoadLibrary'' (ldr_args 9) ?s)"
    and rm: "fst ?R = Returned () \<longrightarrow>
               apis (snd ?R) = remove1 (VStr ''CreateRemoteThread'', a)
                                 (remove1 (VStr ''WriteProcessMemory'', wpm_args 1) (apis ?s))"
    by blast
  have a': "a = crt_args 1 9" using a unfolding ap by simp
  have ret: "fst (execute_trigger_parameters (demo_externals True)
                ''WriteProcessMemory -> CreateRemoteThread -> LoadLibrary'' (ldr_args 9) ?s)
             = Returned ()"
    by (simp add: execute_trigger_parameters_def armed_def fire_def Let_def demo_externals_def
        demo_session_def demo_options_def chain3_def get_times_def reduce_times_def request_def
        get_volshell_bps_def get_bps_def)
  have 1: "fst ?R = Returned ()" using out ret by simp
  have 2: "evaluated (snd ?R) = [''WriteProcessMemory -> CreateRemoteThread -> LoadLibrary'']"
    using ev by (simp add: demo_session_def)
  have 3: "apis (snd ?R) = []" using rm 1 unfolding a' ap by simp
  have srv0: "has_server (demo_session [])" and ap0: "apis (demo_session []) = []"
    by (simp_all add: demo_session_def)
  have wf0: "\<forall>(name, a) \<in> set (apis (demo_session [])). name = VStr ''CreateRemoteThread'' \<longrightarrow>
               (\<exists>h p. arg a ''ProcessHandle'' = Inr h \<and> arg a ''ProcessId'' = Inr p)"
    unfolding ap0 by simp
  have wfw0: "\<forall>wpa. first_named ''WriteProcessMemory'' (apis (demo_session [])) = Some wpa \<longrightarrow>
               (\<exists>wh. arg wpa ''ProcessHandle'' = Inr wh)"
    unfolding ap0 by simp
  have n0: "\<not> (\<exists>wpa a. first_named ''WriteProcessMemory'' (apis (demo_session [])) = Some wpa
                   \<and> (VStr ''CreateRemoteThread'', a) \<in> set (apis (demo_session []))
                   \<and> arg a ''ProcessHandle'' = arg wpa ''ProcessHandle''
                   \<and> arg a ''ProcessId'' = arg (ldr_args 9) ''ProcessId'')"
    unfolding ap0 by simp
  from load_library_chain[OF srv0 wf0 wfw0 p, of "demo_externals True", THEN conjunct2, rule_format, OF n0]
  have 4: "chain_LdrLoadDll (demo_externals True) (ldr_args 9) (demo_session [])
       = (Returned (), demo_session [])" .
  from 1 2 3 4 show ?thesis by (intro conjI)
qed

text \<open>
  C1 as stated fails: the history holds a \<open>WriteProcessMemory\<close> entry and a
  \<open>CreateRemoteThread\<close> entry with the same \<open>ProcessHandle\<close> 1, and the \<open>LdrLoadDll\<close> event
  has the \<open>ProcessId\<close> 9 of that \<open>CreateRemoteThread\<close> entry; but an older
  \<open>WriteProcessMemory\<close> entry with handle 2 comes first in the history, the scan stops at
  it, and nothing is evaluated or removed.
\<close>

theorem load_library_chain_older_write:
  "(VStr ''WriteProcessMemory'', wpm_args 1)
     \<in> set (apis (demo_session [(VStr ''WriteProcessMemory'', wpm_args 2),
                               (VStr ''WriteProcessMemory'', wpm_args 1),
                               (VStr ''CreateRemoteThread'', crt_args 1 9)]))
   \<and> (VStr ''CreateRemoteThread'', crt_args 1 9)
     \<in> set (apis (demo_session [(VStr ''WriteProcessMemory'', wpm_args 2),
                               (VStr ''WriteProcessMemory'', wpm_args 1),
                               (VStr ''CreateRemoteThread'', crt_args 1 9)]))
   \<and> arg (wpm_args 1) ''ProcessHandle'' = arg (crt_args 1 9) ''ProcessHandle''
   \<and> arg (ldr_args 9) ''ProcessId'' = arg (crt_args 1 9) ''ProcessId''
   \<and> has_server (demo_session [(VStr ''WriteProcessMemory'', wpm_args 2),
                               (VStr ''WriteProcessMemory'', wpm_args 1),
                               (VStr ''CreateRemoteThread'', crt_args 1 9)])
   \<and> chain_LdrLoadDll (demo_externals True) (ldr_args 9)
        (demo_session [(VStr ''WriteProcessMemory'', wpm_args 2),
                       (VStr ''WriteProcessMemory'', wpm_args 1),
                       (VStr ''CreateRemoteThread'', crt_args 1 9)])
       = (Returned (),
          demo_session [(VStr ''WriteProcessMemory'', wpm_args 2),
                        (VStr ''WriteProcessMemory'', wpm_args 1),
                        (VStr ''CreateRemoteThread'', crt_args 1 9)])"
  by (simp add: chain_LdrLoadDll_def get_apis_def demo_session_def wpm_args_def crt_args_def
      ldr_args_def arg_def)

section \<open>Framing and dropped calls of the self-describing decoder\<close>

lemma snd_giving: "snd (giving x r) = snd r"
  by (cases "(x, r)" rule: giving.cases) simp_all

lemma source_execute:
  "source (snd (execute_trigger_parameters ext apiname argdict s)) = source s"
  using execute_fields[of ext apiname argdict s] by simp

lemma source_load_library_loop:
  "source (snd (load_library_loop ext wpa argdict xs s)) = source s"
proof (induction xs)
  case Nil
  show ?case by simp
next
  case (Cons x xs)
  obtain name a where x: "x = (name, a)" by (cases x)
  let ?E = "execute_trigger_parameters ext
              ''WriteProcessMemory -> CreateRemoteThread -> LoadLibrary'' argdict s"
  obtain out s1 where E: "?E = (out, s1)" by (cases ?E)
  have "source (snd ?E) = source s" by (rule source_execute)
  then have s1: "source s1 = source s" unfolding E by simp
  show ?case unfolding x using Cons s1 E
    by (cases out) (simp_all add: remove_from_apis_def split: sum.splits)
qed

lemma source_chains:
  "source (snd (chain_LdrLoadDll ext argdict s)) = source s"
  "source (snd (chain_CreateRemoteThread ext argdict s)) = source s"
  "source (snd (chain_NtResumeThread ext argdict s)) = source s"
  by (simp_all add: chain_LdrLoadDll_def chain_CreateRemoteThread_def chain_NtResumeThread_def
      source_load_library_loop source_execute split: option.splits sum.splits)

lemma source_trigger_rules:
  "source (snd (trigger_rules ext apiname argdict s)) = source s"
  unfolding trigger_rules_def
  by (simp add: snd_giving source_execute source_chains Let_def
      split: sum.splits pyval.splits)

lemma source_emit_call:
  "source (snd (emit_call context apiname category argdict dec s)) = source s"
  by (simp add: emit_call_def request_def Let_def split: prod.splits pyval.splits)

lemma source_process_message:
  "source (snd (process_message ext context argdict s)) = source s"
  by (simp add: process_message_def snd_giving source_execute request_def split: sum.splits)

lemma source_regular_call:
  "source (snd (regular_call ext dec index context s)) = source s"
proof -
  have tr: "source (snd (case trigger_rules ext apiname argdict s1 of
                            (Returned argdict1, s2) \<Rightarrow>
                              emit_call context apiname category argdict1 dec s2
                          | (Raised e, s2) \<Rightarrow> (Raised e, s2)
                          | (Blocked, s2) \<Rightarrow> (Blocked, s2))) = source s1"
    for apiname argdict s1 category
  proof -
    obtain out s2 where t: "trigger_rules ext apiname argdict s1 = (out, s2)"
      by (cases "trigger_rules ext apiname argdict s1")
    then have "source s2 = source s1" using source_trigger_rules[of ext apiname argdict s1] by simp
    then show ?thesis unfolding t by (cases out) (simp_all add: source_emit_call)
  qed
  show ?thesis
    unfolding regular_call_def
    by (simp add: Let_def tr source_process_message set_apis_def request_def
        split: option.splits sum.splits prod.splits)
qed

lemma source_info_message:
  "source (snd (info_message ext dec index s)) = source s"
  by (simp add: info_message_def Let_def split: sum.splits prod.splits)

lemma source_handle_message:
  "source (snd (handle_message ext dec s)) = source s"
  by (simp add: handle_message_def Let_def source_info_message source_regular_call request_def
      split: sum.splits)

text \<open>
  C5. The ceiling is 20 MiB. With the four bytes of the length field at hand: when the
  declared length exceeds the ceiling, \<open>read_next_message\<close> returns \<open>False\<close> having
  consumed the four bytes of the length field only; when it is at or below the ceiling,
  the message consumes the length field and the \<open>declared_length - 4\<close> bytes after it
  (what is left of the stream, if less), whatever the message is.
\<close>

theorem message_length_ceiling:
  assumes "4 \<le> length (source s)"
  shows "MAX_MESSAGE_LENGTH = 20 * 1024 * 1024
    \<and> (MAX_MESSAGE_LENGTH < le_nat (take 4 (source s)) \<longrightarrow>
          read_next_message ext s = (Returned False, s\<lparr>source := drop 4 (source s)\<rparr>))
    \<and> (le_nat (take 4 (source s)) \<le> MAX_MESSAGE_LENGTH \<longrightarrow>
          source (snd (read_next_message ext s))
            = drop (le_nat (take 4 (source s)) - 4) (drop 4 (source s)))"
proof -
  have u: "unpack_I (take 4 (source s)) = Inr (le_nat (take 4 (source s)))"
    using assms by (simp add: unpack_I_def)
  have big: "MAX_MESSAGE_LENGTH < le_nat (take 4 (source s)) \<longrightarrow>
          read_next_message ext s = (Returned False, s\<lparr>source := drop 4 (source s)\<rparr>)"
    by (simp add: read_next_message_def read_def u Let_def)
  have small: "le_nat (take 4 (source s)) \<le> MAX_MESSAGE_LENGTH \<longrightarrow>
          source (snd (read_next_message ext s))
            = drop (le_nat (take 4 (source s)) - 4) (drop 4 (source s))"
    by (simp add: read_next_message_def read_def u Let_def source_handle_message
        split: option.splits)
  have "MAX_MESSAGE_LENGTH = 20 * 1024 * 1024" by (simp add: MAX_MESSAGE_LENGTH_def)
  with big small show ?thesis by (intro conjI)
qed


theorem message_length_ceiling_witness:
  "read_next_message (demo_externals True)
       (schema_session ([CHR 0x01, CHR 0x00, CHR 0x40, CHR 0x01] @ ''abc''))
     = (Returned False, (schema_session ([CHR 0x01, CHR 0x00, CHR 0x40, CHR 0x01] @ ''abc''))
                          \<lparr>source := ''abc''\<rparr>)
   \<and> source (snd (read_next_message (demo_externals True)
                     (schema_session ([CHR 0x05, CHR 0x00, CHR 0x00, CHR 0x00] @ ''Xrest''))))
       = ''rest''"
proof -
  let ?big = "schema_session ([CHR 0x01, CHR 0x00, CHR 0x40, CHR 0x01] @ ''abc'')"
  let ?small = "schema_session ([CHR 0x05, CHR 0x00, CHR 0x00, CHR 0x00] @ ''Xrest'')"
  have sb: "source ?big = [CHR 0x01, CHR 0x00, CHR 0x40, CHR 0x01] @ ''abc''"
    and ss: "source ?small = [CHR 0x05, CHR 0x00, CHR 0x00, CHR 0x00] @ ''Xrest''"
    by (simp_all add: schema_session_def)
  have lb: "4 \<le> length (source ?big)" and ls: "4 \<le> length (source ?small)"
    unfolding sb ss by simp_all
  have nb: "le_nat (take 4 (source ?big)) = 20971521"
    and ns: "le_nat (take 4 (source ?small)) = 5"
    unfolding sb ss by (simp_all add: le_nat_def)
  have gb: "MAX_MESSAGE_LENGTH < le_nat (take 4 (source ?big))"
    unfolding nb by (simp add: MAX_MESSAGE_LENGTH_def)
  have gs: "le_nat (take 4 (source ?small)) \<le> MAX_MESSAGE_LENGTH"
    unfolding ns by (simp add: MAX_MESSAGE_LENGTH_def)
  from message_length_ceiling[OF lb, of "demo_externals True",
      THEN conjunct2, THEN conjunct1, rule_format, OF gb]
  have 1: "read_next_message (demo_externals True) ?big
             = (Returned False, ?big\<lparr>source := ''abc''\<rparr>)"
    unfolding sb by simp
  from message_length_ceiling[OF ls, of "demo_externals True",
      THEN conjunct2, THEN conjunct2, rule_format, OF gs]
  have 2: "source (snd (read_next_message (demo_externals True) ?small)) = ''rest''"
    unfolding ns unfolding ss by simp
  from 1 2 show ?thesis by (intro conjI)
qed

lemma regular_call_dropped:
  assumes "hashable index"
    and "infomap s index = None
         \<or> (\<exists>apiname arginfo argnames converters category n.
               infomap s index = Some (apiname, arginfo, argnames, converters, category)
               \<and> py_len (dict_get dec ''args'' (VList [])) = Inr n \<and> n \<noteq> length argnames)"
  shows "regular_call ext dec index context s = (Returned True, s)"
  using assms by (auto simp: regular_call_def Let_def)

text \<open>
  C6. A frame within the ceiling decodes to a document that is not an \<open>info\<close>,
  \<open>debug\<close> or \<open>new_process\<close> message, with an index that can be a key of the schema
  table. If the table has no entry for the index, or the length of the argument list
  differs from the number of argument names of the entry, then \<open>read_next_message\<close>
  returns \<open>True\<close> and changes nothing but the position in the stream: no request reaches
  the handler (no \<open>log_call\<close>) and the schema table is the same.
\<close>

theorem unknown_index_or_arity_dropped:
  assumes frame: "4 \<le> length (source s)" "le_nat (take 4 (source s)) \<le> MAX_MESSAGE_LENGTH"
    and dec: "bson_decode ext (take 4 (source s)
                @ take (le_nat (take 4 (source s)) - 4) (drop 4 (source s))) = Some dec"
    and regular: "dict_get dec ''type'' (VStr ''none'') \<noteq> VStr ''info''"
                 "dict_get dec ''type'' (VStr ''none'') \<noteq> VStr ''debug''"
                 "dict_get dec ''type'' (VStr ''none'') \<noteq> VStr ''new_process''"
    and index: "hashable (dict_get dec ''I'' (VInt (- 1)))"
    and unknown: "infomap s (dict_get dec ''I'' (VInt (- 1))) = None
         \<or> (\<exists>apiname arginfo argnames converters category n.
               infomap s (dict_get dec ''I'' (VInt (- 1)))
                 = Some (apiname, arginfo, argnames, converters, category)
               \<and> py_len (dict_get dec ''args'' (VList [])) = Inr n \<and> n \<noteq> length argnames)"
  shows "read_next_message ext s
           = (Returned True, s\<lparr>source := drop (le_nat (take 4 (source s)) - 4) (drop 4 (source s))\<rparr>)
       \<and> trace (snd (read_next_message ext s)) = trace s
       \<and> infomap (snd (read_next_message ext s)) = infomap s"
proof -
  let ?s2 = "s\<lparr>source := drop (le_nat (take 4 (source s)) - 4) (drop 4 (source s))\<rparr>"
  have u: "unpack_I (take 4 (source s)) = Inr (le_nat (take 4 (source s)))"
    using frame(1) by (simp add: unpack_I_def)
  have r: "read_next_message ext s = handle_message ext dec ?s2"
    using frame(2) dec by (simp add: read_next_message_def read_def u Let_def)
  have unknown2: "infomap ?s2 (dict_get dec ''I'' (VInt (- 1))) = None
         \<or> (\<exists>apiname arginfo argnames converters category n.
               infomap ?s2 (dict_get dec ''I'' (VInt (- 1)))
                 = Some (apiname, arginfo, argnames, converters, category)
               \<and> py_len (dict_get dec ''args'' (VList [])) = Inr n \<and> n \<noteq> length argnames)"
    using unknown by simp
  have h: "handle_message ext dec ?s2 = (Returned True, ?s2)"
    using regular regular_call_dropped[OF index unknown2]
    by (simp add: handle_message_def Let_def)
  show ?thesis unfolding r h by simp
qed

theorem unknown_index_or_arity_dropped_witness:
  "read_next_message (decoding_to (call_document 8 [VInt 2]))
       (schema_session ([CHR 0x05, CHR 0x00, CHR 0x00, CHR 0x00] @ ''Xrest''))
     = (Returned True, (schema_session ([CHR 0x05, CHR 0x00, CHR 0x00, CHR 0x00] @ ''Xrest''))
                         \<lparr>source := ''rest''\<rparr>)
   \<and> read_next_message (decoding_to (call_document 7 [VInt 2, VInt 3]))
       (schema_session ([CHR 0x05, CHR 0x00, CHR 0x00, CHR 0x00] @ ''Xrest''))
     = (Returned True, (schema_session ([CHR 0x05, CHR 0x00, CHR 0x00, CHR 0x00] @ ''Xrest''))
                         \<lparr>source := ''rest''\<rparr>)"
proof -
  let ?s = "schema_session ([CHR 0x05, CHR 0x00, CHR 0x00, CHR 0x00] @ ''Xrest'')"
  let ?d8 = "call_document 8 [VInt 2]"
  let ?d7 = "call_document 7 [VInt 2, VInt 3]"
  have ss: "source ?s = [CHR 0x05, CHR 0x00, CHR 0x00, CHR 0x00] @ ''Xrest''"
    by (simp add: schema_session_def)
  have l: "4 \<le> length (source ?s)" unfolding ss by simp
  have n: "le_nat (take 4 (source ?s)) = 5" unfolding ss by (simp add: le_nat_def)
  have g: "le_nat (take 4 (source ?s)) \<le> MAX_MESSAGE_LENGTH"
    unfolding n by (simp add: MAX_MESSAGE_LENGTH_def)
  have d: "bson_decode (decoding_to dec) (take 4 (source ?s)
                @ take (le_nat (take 4 (source ?s)) - 4) (drop 4 (source ?s))) = Some dec" for dec
    by (simp add: decoding_to_def)
  have t: "dict_get (call_document i as) ''type'' (VStr ''none'') \<noteq> VStr ''info''"
    "dict_get (call_document i as) ''type'' (VStr ''none'') \<noteq> VStr ''debug''"
    "dict_get (call_document i as) ''type'' (VStr ''none'') \<noteq> VStr ''new_process''"
    "hashable (dict_get (call_document i as) ''I'' (VInt (- 1)))" for i as
    by (simp_all add: call_document_def dict_get_def)
  have u8: "infomap ?s (dict_get ?d8 ''I'' (VInt (- 1))) = None
         \<or> (\<exists>apiname arginfo argnames converters category n.
               infomap ?s (dict_get ?d8 ''I'' (VInt (- 1)))
                 = Some (apiname, arginfo, argnames, converters, category)
               \<and> py_len (dict_get ?d8 ''args'' (VList [])) = Inr n \<and> n \<noteq> length argnames)"
    by (simp add: call_document_def dict_get_def schema_session_def)
  have u7: "infomap ?s (dict_get ?d7 ''I'' (VInt (- 1))) = None
         \<or> (\<exists>apiname arginfo argnames converters category n.
               infomap ?s (dict_get ?d7 ''I'' (VInt (- 1)))
                 = Some (apiname, arginfo, argnames, converters, category)
               \<and> py_len (dict_get ?d7 ''args'' (VList [])) = Inr n \<and> n \<noteq> length argnames)"
    by (simp add: call_document_def dict_get_def schema_session_def)
  from unknown_index_or_arity_dropped[OF l g d t u8, THEN conjunct1]
  have 1: "read_next_message (decoding_to ?d8) ?s = (Returned True, ?s\<lparr>source := ''rest''\<rparr>)"
    unfolding n unfolding ss by simp
  from unknown_index_or_arity_dropped[OF l g d t u7, THEN conjunct1]
  have 2: "read_next_message (decoding_to ?d7) ?s = (Returned True, ?s\<lparr>source := ''rest''\<rparr>)"
    unfolding n unfolding ss by simp
  from 1 2 show ?thesis by (intro conjI)
qed

section \<open>The connection diff\<close>

lemma map_result_hash_record: "map_result hash_record ds = Inr hs \<Longrightarrow> hs = ds"
proof (induction ds arbitrary: hs)
  case Nil
  then show ?case by simp
next
  case (Cons d ds)
  then show ?case
    by (auto simp: hash_record_def split: if_splits sum.splits)
qed

lemma record_set_Inr: "record_set ds = Inr s \<Longrightarrow> set s = set ds \<and> distinct s"
  by (auto simp: record_set_def split: sum.splits dest: map_result_hash_record)

lemma facet_records_Cons:
  "data_of snap dep = Inr ds \<Longrightarrow> facet_records snap (dep # deps) = set ds \<union> facet_records snap deps"
  by (auto simp: facet_records_def)

lemma unite_Inr:
  "unite old new deps (uo, un) = Inr (uo', un') \<Longrightarrow>
     set uo' = set uo \<union> facet_records old deps \<and> set un' = set un \<union> facet_records new deps
     \<and> (distinct un \<longrightarrow> distinct un')"
proof (induction deps arbitrary: uo un)
  case Nil
  then show ?case by (simp add: facet_records_def)
next
  case (Cons dep deps)
  from Cons.prems obtain od os nd ns where
    od: "data_of old dep = Inr od" and os: "record_set od = Inr os" and
    nd: "data_of new dep = Inr nd" and ns: "record_set nd = Inr ns" and
    rec: "unite old new deps (remdups (uo @ os), remdups (un @ ns)) = Inr (uo', un')"
    by (auto split: sum.splits)
  from Cons.IH[OF rec] record_set_Inr[OF os] record_set_Inr[OF ns]
  show ?case
    by (simp add: facet_records_Cons[OF od] facet_records_Cons[OF nd] Un_assoc)
qed

lemma get_new_objects_Inr:
  assumes "get_new_objects old new deps = Inr found"
  shows "set found = facet_records new deps - facet_records old deps \<and> distinct found"
proof -
  from assms obtain uo un where
    u: "unite old new deps ([], []) = Inr (uo, un)" and f: "found = filter (\<lambda>d. d \<notin> set uo) un"
    by (auto simp: get_new_objects_def split: sum.splits)
  from unite_Inr[OF u] f show ?thesis by auto
qed

lemma excluded_connection_iff:
  assumes "excluded_connection c = Inr b"
  shows "b \<longleftrightarrow> (fmlookup c ''local_port'' = Some (VInt 8000)
             \<or> fmlookup c ''remote_port'' = Some (VInt 2042)
             \<or> fmlookup c ''remote_address'' = Some (VStr ''293.268.122.1''))"
proof (cases "fmlookup c ''local_port''")
  case None
  with assms show ?thesis by (simp add: excluded_connection_def getitem_def)
next
  case lp: (Some local_port)
  show ?thesis
  proof (cases "local_port = VInt 8000")
    case True
    with assms lp show ?thesis by (simp add: excluded_connection_def getitem_def)
  next
    case nlp: False
    show ?thesis
    proof (cases "fmlookup c ''remote_port''")
      case None
      with assms lp nlp show ?thesis by (simp add: excluded_connection_def getitem_def)
    next
      case rp: (Some remote_port)
      show ?thesis
      proof (cases "remote_port = VInt 2042")
        case True
        with assms lp nlp rp show ?thesis by (simp add: excluded_connection_def getitem_def)
      next
        case nrp: False
        show ?thesis
        proof (cases "fmlookup c ''remote_address''")
          case None
          with assms lp nlp rp nrp show ?thesis
            by (simp add: excluded_connection_def getitem_def)
        next
          case (Some remote_address)
          with assms lp nlp rp nrp show ?thesis
            by (simp add: excluded_connection_def getitem_def)
        qed
      qed
    qed
  qed
qed

lemma keep_connections_Inr:
  "keep_connections cs = Inr kept \<Longrightarrow>
     kept = filter (\<lambda>c. \<not> (fmlookup c ''local_port'' = Some (VInt 8000)
             \<or> fmlookup c ''remote_port'' = Some (VInt 2042)
             \<or> fmlookup c ''remote_address'' = Some (VStr ''293.268.122.1''))) cs"
proof (induction cs arbitrary: kept)
  case Nil
  then show ?case by simp
next
  case (Cons c cs)
  obtain b where b: "excluded_connection c = Inr b"
    using Cons.prems by (cases "excluded_connection c") simp_all
  obtain k where k: "keep_connections cs = Inr k"
    using Cons.prems b by (cases "keep_connections cs") simp_all
  have kept: "kept = (if b then k else c # k)" using Cons.prems b k by simp
  note ih = Cons.IH[OF k]
  note e = excluded_connection_iff[OF b]
  show ?case
  proof (cases b)
    case True
    with kept ih e show ?thesis by (simp only: filter.simps if_True if_False simp_thms)
  next
    case False
    with kept ih e show ?thesis by (simp only: filter.simps if_True if_False simp_thms)
  qed
qed

lemma filter_holds: "\<forall>c \<in> set (filter P xs). P c"
  by simp

text \<open>
  C7. When \<open>get_new_connections\<close> returns, its result is the raw new-object diff (the
  records held under the dependencies in \<open>new\<close> that are not, as dictionaries, among
  those held in \<open>old\<close>, each once) with the records of the exclusion list filtered
  out: no returned record has \<open>local_port\<close> 8000, \<open>remote_port\<close> 2042 or
  \<open>remote_address\<close> \<open>293.268.122.1\<close>.
\<close>

theorem get_new_connections_filtered:
  assumes "get_new_connections old new deps = Inr res"
  shows "\<exists>found. get_new_objects old new deps = Inr found
     \<and> set found = {d. \<exists>dep \<in> set deps. \<exists>ds. data_of new dep = Inr ds \<and> d \<in> set ds}
                    - {d. \<exists>dep \<in> set deps. \<exists>ds. data_of old dep = Inr ds \<and> d \<in> set ds}
     \<and> res = filter (\<lambda>c. \<not> (fmlookup c ''local_port'' = Some (VInt 8000)
                          \<or> fmlookup c ''remote_port'' = Some (VInt 2042)
                          \<or> fmlookup c ''remote_address'' = Some (VStr ''293.268.122.1''))) found
     \<and> distinct res
     \<and> (\<forall>c \<in> set res. \<not> (fmlookup c ''local_port'' = Some (VInt 8000)
                          \<or> fmlookup c ''remote_port'' = Some (VInt 2042)
                          \<or> fmlookup c ''remote_address'' = Some (VStr ''293.268.122.1'')))"
proof -
  from assms obtain found where
    f: "get_new_objects old new deps = Inr found" and k: "keep_connections found = Inr res"
    by (auto simp: get_new_connections_def split: sum.splits)
  note o = get_new_objects_Inr[OF f, unfolded facet_records_def]
  note r = keep_connections_Inr[OF k]
  have o1: "set found = {d. \<exists>dep \<in> set deps. \<exists>ds. data_of new dep = Inr ds \<and> d \<in> set ds}
                    - {d. \<exists>dep \<in> set deps. \<exists>ds. data_of old dep = Inr ds \<and> d \<in> set ds}"
    using o by (rule conjunct1)
  have "distinct found" using o by (rule conjunct2)
  then have "distinct (filter (\<lambda>c. \<not> (fmlookup c ''local_port'' = Some (VInt 8000)
                          \<or> fmlookup c ''remote_port'' = Some (VInt 2042)
                          \<or> fmlookup c ''remote_address'' = Some (VStr ''293.268.122.1''))) found)"
    by (rule distinct_filter)
  then have d: "distinct res" by (simp only: r)
  have n: "\<forall>c \<in> set res. \<not> (fmlookup c ''local_port'' = Some (VInt 8000)
                          \<or> fmlookup c ''remote_port'' = Some (VInt 2042)
                          \<or> fmlookup c ''remote_address'' = Some (VStr ''293.268.122.1''))"
    by (subst r) (rule filter_holds)
  show ?thesis
    by (rule exI[of _ found]) (intro conjI f o1 r d n)
qed


lemma connection_example:
  "get_new_connections (connscan [])
       (connscan [connection 49160 2042 ''10.0.0.5'', connection 49161 80 ''10.0.0.6''])
       [''connscan'']
     = Inr [connection 49161 80 ''10.0.0.6'']"
  unfolding connscan_def connection_def by code_simp

theorem get_new_connections_filtered_witness:
  "get_new_connections (connscan [])
       (connscan [connection 49160 2042 ''10.0.0.5'', connection 49161 80 ''10.0.0.6''])
       [''connscan'']
     = Inr [connection 49161 80 ''10.0.0.6'']
   \<and> fmlookup (connection 49160 2042 ''10.0.0.5'') ''remote_port'' = Some (VInt 2042)
   \<and> \<not> (fmlookup (connection 49161 80 ''10.0.0.6'') ''local_port'' = Some (VInt 8000)
        \<or> fmlookup (connection 49161 80 ''10.0.0.6'') ''remote_port'' = Some (VInt 2042)
        \<or> fmlookup (connection 49161 80 ''10.0.0.6'') ''remote_address''
            = Some (VStr ''293.268.122.1''))"
proof -
  note t = get_new_connections_filtered[OF connection_example]
  then obtain found where
    n: "\<forall>c \<in> set [connection 49161 80 ''10.0.0.6''].
          \<not> (fmlookup c ''local_port'' = Some (VInt 8000)
             \<or> fmlookup c ''remote_port'' = Some (VInt 2042)
             \<or> fmlookup c ''remote_address'' = Some (VStr ''293.268.122.1''))"
    by (elim exE conjE)
  have k: "\<not> (fmlookup (connection 49161 80 ''10.0.0.6'') ''local_port'' = Some (VInt 8000)
        \<or> fmlookup (connection 49161 80 ''10.0.0.6'') ''remote_port'' = Some (VInt 2042)
        \<or> fmlookup (connection 49161 80 ''10.0.0.6'') ''remote_address''
            = Some (VStr ''293.268.122.1''))"
    using n by (rule bspec) simp
  have x: "fmlookup (connection 49160 2042 ''10.0.0.5'') ''remote_port'' = Some (VInt 2042)"
    by (simp add: connection_def)
  from connection_example x k show ?thesis by (intro conjI)
qed

section \<open>The DLL-list diff\<close>

lemma find_process_Some:
  "find_process pid ps = Inr (Some p) \<Longrightarrow> p \<in> set ps \<and> getitem p ''process_id'' = Inr pid"
proof (induction ps)
  case Nil
  then show ?case by simp
next
  case (Cons q ps)
  obtain v where v: "getitem q ''process_id'' = Inr v"
    using Cons.prems by (cases "getitem q ''process_id''") simp_all
  show ?case
  proof (cases "pid = v")
    case True
    with Cons.prems v show ?thesis by simp
  next
    case False
    with Cons.prems v have "find_process pid ps = Inr (Some p)" by simp
    from Cons.IH[OF this] show ?thesis by simp
  qed
qed

lemma find_process_None:
  "find_process pid ps = Inr None \<Longrightarrow> \<forall>p \<in> set ps. getitem p ''process_id'' \<noteq> Inr pid"
proof (induction ps)
  case Nil
  then show ?case by simp
next
  case (Cons q ps)
  obtain v where v: "getitem q ''process_id'' = Inr v"
    using Cons.prems by (cases "getitem q ''process_id''") simp_all
  have ne: "pid \<noteq> v" using Cons.prems v by (cases "pid = v") simp_all
  with Cons.prems v have "find_process pid ps = Inr None" by simp
  from Cons.IH[OF this] v ne show ?case by simp
qed

lemma module_found_False:
  "module_found module olds = Inr False \<Longrightarrow>
     \<forall>m \<in> set olds. subscript m ''dll_full_name'' \<noteq> subscript module ''dll_full_name''"
proof (induction olds)
  case Nil
  then show ?case by simp
next
  case (Cons m ms)
  obtain a where a: "subscript m ''dll_full_name'' = Inr a"
    using Cons.prems by (cases "subscript m ''dll_full_name''") simp_all
  obtain b where b: "subscript module ''dll_full_name'' = Inr b"
    using Cons.prems a by (cases "subscript module ''dll_full_name''") simp_all
  have ne: "a \<noteq> b" using Cons.prems a b by (cases "a = b") simp_all
  with Cons.prems a b have "module_found module ms = Inr False" by simp
  from Cons.IH[OF this] a b ne show ?case by simp
qed

lemma store_Inr: "store v k x = Inr w \<Longrightarrow> \<exists>d. v = VDict d \<and> w = VDict (fmupd k x d)"
  by (cases v) simp_all

lemma new_modules_mem:
  assumes "new_modules pid pname old_p modules = Inr res" "x \<in> set res"
  shows "\<exists>d olds old_list. VDict d \<in> set modules
           \<and> getitem old_p ''loaded_modules'' = Inr olds \<and> py_iter olds = Inr old_list
           \<and> module_found (VDict d) old_list = Inr False
           \<and> x = VDict (fmupd ''process_name'' pname (fmupd ''process_id'' pid d))"
  using assms
proof (induction modules arbitrary: res)
  case Nil
  then show ?case by simp
next
  case (Cons module modules)
  obtain olds where olds: "getitem old_p ''loaded_modules'' = Inr olds"
    using Cons.prems(1) by (cases "getitem old_p ''loaded_modules''") simp_all
  obtain old_list where ol: "py_iter olds = Inr old_list"
    using Cons.prems(1) olds by (cases "py_iter olds") simp_all
  obtain found where fd: "module_found module old_list = Inr found"
    using Cons.prems(1) olds ol by (cases "module_found module old_list") simp_all
  show ?case
  proof (cases found)
    case True
    with Cons.prems(1) olds ol fd have "new_modules pid pname old_p modules = Inr res" by simp
    from Cons.IH[OF this Cons.prems(2)] show ?thesis by auto
  next
    case False
    obtain m1 where m1: "store module ''process_id'' pid = Inr m1"
      using Cons.prems(1) olds ol fd False by (cases "store module ''process_id'' pid") simp_all
    obtain m2 where m2: "store m1 ''process_name'' pname = Inr m2"
      using Cons.prems(1) olds ol fd False m1 by (cases "store m1 ''process_name'' pname") simp_all
    obtain others where ot: "new_modules pid pname old_p modules = Inr others"
      using Cons.prems(1) olds ol fd False m1 m2
      by (cases "new_modules pid pname old_p modules") simp_all
    have res: "res = m2 # others" using Cons.prems(1) olds ol fd False m1 m2 ot by simp
    from store_Inr[OF m1] obtain d where d: "module = VDict d" "m1 = VDict (fmupd ''process_id'' pid d)"
      by auto
    from store_Inr[OF m2] d have m2': "m2 = VDict (fmupd ''process_name'' pname (fmupd ''process_id'' pid d))"
      by auto
    show ?thesis
    proof (cases "x = m2")
      case True
      have "VDict d \<in> set (module # modules)" using d by simp
      moreover have "module_found (VDict d) old_list = Inr False" using fd False d by simp
      ultimately show ?thesis using olds ol True m2' by (intro exI[of _ d] exI[of _ olds] exI[of _ old_list]) simp
    next
      case nx: False
      then have "x \<in> set others" using Cons.prems(2) res by simp
      from Cons.IH[OF ot this] show ?thesis by auto
    qed
  qed
qed

lemma dlllist_loop_mem:
  assumes "dlllist_loop old procs = Inr res" "x \<in> set res"
  shows "\<exists>proc pid pname old_procs old_p modules module_list found.
           proc \<in> set procs
           \<and> getitem proc ''process_id'' = Inr pid \<and> getitem proc ''process_name'' = Inr pname
           \<and> data_of old ''dlllist'' = Inr old_procs
           \<and> find_process pid old_procs = Inr (Some old_p)
           \<and> getitem proc ''loaded_modules'' = Inr modules \<and> py_iter modules = Inr module_list
           \<and> new_modules pid pname old_p module_list = Inr found \<and> x \<in> set found"
  using assms
proof (induction procs arbitrary: res)
  case Nil
  then show ?case by simp
next
  case (Cons proc procs)
  obtain pid where pid: "getitem proc ''process_id'' = Inr pid"
    using Cons.prems(1) by (cases "getitem proc ''process_id''") simp_all
  obtain pname where pname: "getitem proc ''process_name'' = Inr pname"
    using Cons.prems(1) pid by (cases "getitem proc ''process_name''") simp_all
  obtain old_procs where op: "data_of old ''dlllist'' = Inr old_procs"
    using Cons.prems(1) pid pname by (cases "data_of old ''dlllist''") simp_all
  obtain fp where fp: "find_process pid old_procs = Inr fp"
    using Cons.prems(1) pid pname op by (cases "find_process pid old_procs") simp_all
  show ?case
  proof (cases fp)
    case None
    with Cons.prems(1) pid pname op fp have "dlllist_loop old procs = Inr res" by simp
    from Cons.IH[OF this Cons.prems(2)] show ?thesis by auto
  next
    case (Some old_p)
    obtain modules where ms: "getitem proc ''loaded_modules'' = Inr modules"
      using Cons.prems(1) pid pname op fp Some by (cases "getitem proc ''loaded_modules''") simp_all
    obtain module_list where ml: "py_iter modules = Inr module_list"
      using Cons.prems(1) pid pname op fp Some ms by (cases "py_iter modules") simp_all
    obtain found where fd: "new_modules pid pname old_p module_list = Inr found"
      using Cons.prems(1) pid pname op fp Some ms ml
      by (cases "new_modules pid pname old_p module_list") simp_all
    obtain others where ot: "dlllist_loop old procs = Inr others"
      using Cons.prems(1) pid pname op fp Some ms ml fd
      by (cases "dlllist_loop old procs") simp_all
    have res: "res = found @ others"
      using Cons.prems(1) pid pname op fp Some ms ml fd ot by simp
    show ?thesis
    proof (cases "x \<in> set found")
      case True
      have "proc \<in> set (proc # procs)" by simp
      with pid pname op fp Some ms ml fd True show ?thesis
        by (intro exI[of _ proc] exI[of _ pid] exI[of _ pname] exI[of _ old_procs] exI[of _ old_p]
            exI[of _ modules] exI[of _ module_list] exI[of _ found]) simp
    next
      case False
      then have "x \<in> set others" using Cons.prems(2) res by simp
      from Cons.IH[OF ot this] show ?thesis by auto
    qed
  qed
qed


text \<open>
  C10. Every module that \<open>get_new_dlllist\<close> returns comes from a process record of the
  new snapshot whose \<open>process_id\<close> is also the \<open>process_id\<close> of a process record of the
  old snapshot (the first one with that id); it is a module of that new process whose
  \<open>dll_full_name\<close> differs from that of every module loaded by the old process; and it is
  that module with \<open>process_id\<close> and \<open>process_name\<close> set to those of the owning process.
  So a process of the new snapshot with no counterpart in the old one contributes
  nothing.
\<close>

theorem get_new_dlllist_sound:
  assumes "get_new_dlllist old new deps = Inr res" "x \<in> set res"
  shows "\<exists>new_procs old_procs proc old_p pid pname modules module_list d olds old_list.
           data_of new ''dlllist'' = Inr new_procs \<and> proc \<in> set new_procs
         \<and> data_of old ''dlllist'' = Inr old_procs \<and> old_p \<in> set old_procs
         \<and> getitem proc ''process_id'' = Inr pid \<and> getitem old_p ''process_id'' = Inr pid
         \<and> find_process pid old_procs = Inr (Some old_p)
         \<and> getitem proc ''process_name'' = Inr pname
         \<and> getitem proc ''loaded_modules'' = Inr modules \<and> py_iter modules = Inr module_list
         \<and> VDict d \<in> set module_list
         \<and> getitem old_p ''loaded_modules'' = Inr olds \<and> py_iter olds = Inr old_list
         \<and> (\<forall>m \<in> set old_list.
               subscript m ''dll_full_name'' \<noteq> subscript (VDict d) ''dll_full_name'')
         \<and> x = VDict (fmupd ''process_name'' pname (fmupd ''process_id'' pid d))"
proof -
  obtain new_procs where np: "data_of new ''dlllist'' = Inr new_procs"
    using assms(1) by (cases "data_of new ''dlllist''") (simp_all add: get_new_dlllist_def)
  have loop: "dlllist_loop old new_procs = Inr res"
    using assms(1) np by (simp add: get_new_dlllist_def)
  from dlllist_loop_mem[OF loop assms(2)] obtain proc pid pname old_procs old_p modules module_list found
    where p: "proc \<in> set new_procs" "getitem proc ''process_id'' = Inr pid"
      "getitem proc ''process_name'' = Inr pname" "data_of old ''dlllist'' = Inr old_procs"
      "find_process pid old_procs = Inr (Some old_p)"
      "getitem proc ''loaded_modules'' = Inr modules" "py_iter modules = Inr module_list"
      "new_modules pid pname old_p module_list = Inr found" "x \<in> set found"
    by (elim exE conjE)
  from new_modules_mem[OF p(8) p(9)] obtain d olds old_list where
    m: "VDict d \<in> set module_list" "getitem old_p ''loaded_modules'' = Inr olds"
       "py_iter olds = Inr old_list" "module_found (VDict d) old_list = Inr False"
       "x = VDict (fmupd ''process_name'' pname (fmupd ''process_id'' pid d))"
    by (elim exE conjE)
  note o = find_process_Some[OF p(5)]
  have o1: "old_p \<in> set old_procs" using o by (rule conjunct1)
  have o2: "getitem old_p ''process_id'' = Inr pid" using o by (rule conjunct2)
  note a = module_found_False[OF m(4)]
  show ?thesis
    by (rule exI[of _ new_procs], rule exI[of _ old_procs], rule exI[of _ proc],
        rule exI[of _ old_p], rule exI[of _ pid], rule exI[of _ pname], rule exI[of _ modules],
        rule exI[of _ module_list], rule exI[of _ d], rule exI[of _ olds], rule exI[of _ old_list])
       (intro conjI np p(1) p(4) o1 p(2) o2 p(5) p(3) p(6) p(7) m(1) m(2) m(3) a m(5))
qed

lemma dlllist_example:
  "get_new_dlllist (dlllist [process 4 ''System'' [dll ''A'']])
       (dlllist [process 4 ''System'' [dll ''A'', dll ''B''], process 8 ''m.exe'' [dll ''C'']]) []
     = Inr [VDict (fmupd ''process_name'' (VStr ''System'')
                    (fmupd ''process_id'' (VInt 4) (fmupd ''dll_full_name'' (VStr ''B'') fmempty)))]"
  unfolding dlllist_def process_def dll_def by code_simp


theorem get_new_dlllist_sound_witness:
  "get_new_dlllist (dlllist [process 4 ''System'' [dll ''A'']]) (dlllist [process 4 ''System'' [dll ''A'', dll ''B''], process 8 ''m.exe'' [dll ''C'']]) [] = Inr [VDict (fmupd ''process_name'' (VStr ''System'') (fmupd ''process_id'' (VInt 4) (fmupd ''dll_full_name'' (VStr ''B'') fmempty)))]
   \<and> (\<exists>new_procs old_procs proc old_p pid pname modules module_list d olds old_list.
           data_of (dlllist [process 4 ''System'' [dll ''A'', dll ''B''], process 8 ''m.exe'' [dll ''C'']]) ''dlllist'' = Inr new_procs \<and> proc \<in> set new_procs
         \<and> data_of (dlllist [process 4 ''System'' [dll ''A'']]) ''dlllist'' = Inr old_procs \<and> old_p \<in> set old_procs
         \<and> getitem proc ''process_id'' = Inr pid \<and> getitem old_p ''process_id'' = Inr pid
         \<and> find_process pid old_procs = Inr (Some old_p)
         \<and> getitem proc ''process_name'' = Inr pname
         \<and> getitem proc ''loaded_modules'' = Inr modules \<and> py_iter modules = Inr module_list
         \<and> VDict d \<in> set module_list
         \<and> getitem old_p ''loaded_modules'' = Inr olds \<and> py_iter olds = Inr old_list
         \<and> (\<forall>m \<in> set old_list.
               subscript m ''dll_full_name'' \<noteq> subscript (VDict d) ''dll_full_name'')
         \<and> VDict (fmupd ''process_name'' (VStr ''System'') (fmupd ''process_id'' (VInt 4) (fmupd ''dll_full_name'' (VStr ''B'') fmempty))) = VDict (fmupd ''process_name'' pname (fmupd ''process_id'' pid d)))"
proof -
  have mem: "VDict (fmupd ''process_name'' (VStr ''System'') (fmupd ''process_id'' (VInt 4) (fmupd ''dll_full_name'' (VStr ''B'') fmempty))) \<in> set [VDict (fmupd ''process_name'' (VStr ''System'') (fmupd ''process_id'' (VInt 4) (fmupd ''dll_full_name'' (VStr ''B'') fmempty)))]" by simp
  from dlllist_example get_new_dlllist_sound[OF dlllist_example mem]
  show ?thesis by (intro conjI)
qed

section \<open>Smart escalation marks the diffed facets of the list\<close>

lemma keeps_stars_refl: "keeps_stars ds ds"
  by (simp add: keeps_stars_def)

lemma keeps_stars_trans:
  assumes "keeps_stars a b" "keeps_stars b c"
  shows "keeps_stars a c"
  unfolding keeps_stars_def
proof (intro conjI allI impI)
  fix p
  assume "c p = None"
  with assms show "a p = None" unfolding keeps_stars_def by metis
next
  fix p e''
  assume c: "c p = Some e''"
  from assms(2) c consider
    (new) "starred e''" "b p \<noteq> None \<or> made_here p"
    | (old) e' where "b p = Some e'" "starred e' \<longrightarrow> starred e''"
    unfolding keeps_stars_def by metis
  then show "(starred e'' \<and> (a p \<noteq> None \<or> made_here p))
           \<or> (\<exists>e. a p = Some e \<and> (starred e \<longrightarrow> starred e''))"
  proof cases
    case new
    show ?thesis
    proof (cases "b p")
      case None
      with new show ?thesis by simp
    next
      case (Some e')
      from assms(1) Some consider
        "starred e'" "a p \<noteq> None \<or> made_here p"
        | e where "a p = Some e"
        unfolding keeps_stars_def by metis
      then show ?thesis using new(1) by cases auto
    qed
  next
    case old
    from assms(1) old(1) consider
      (n) "starred e'" "a p \<noteq> None \<or> made_here p"
      | (o) e where "a p = Some e" "starred e \<longrightarrow> starred e'"
      unfolding keeps_stars_def by metis
    then show ?thesis using old(2) by cases auto
  qed
qed

lemma keeps_stars_update_starred:
  assumes "starred e'" "ds name \<noteq> None \<or> made_here name"
  shows "keeps_stars ds (ds(name \<mapsto> e'))"
  using assms by (auto simp: keeps_stars_def)

lemma keeps_stars_update_same:
  assumes "ds name = Some e" "starred e \<longrightarrow> starred e'"
  shows "keeps_stars ds (ds(name \<mapsto> e'))"
  using assms by (auto simp: keeps_stars_def)

lemma starred_fmupd_star: "starred (fmupd ''star'' (VStr ''yes'') e)"
  by (simp add: starred_def)

lemma starred_fmupd_other: "field \<noteq> ''star'' \<Longrightarrow> starred (fmupd field v e) = starred e"
  by (simp add: starred_def)

lemma starred_diff_entry: "starred (diff_entry ''yes'' desc new)"
  by (simp add: starred_def diff_entry_def)

lemma set_star_keeps: "set_star name ds = Inr ds' \<Longrightarrow> keeps_stars ds ds'"
proof -
  assume a: "set_star name ds = Inr ds'"
  then obtain e where e: "ds name = Some e"
    by (cases "ds name") (simp_all add: set_star_def)
  with a have "ds' = ds(name \<mapsto> fmupd ''star'' (VStr ''yes'') e)"
    by (simp add: set_star_def)
  with e show ?thesis
    by (simp add: keeps_stars_update_same starred_fmupd_star)
qed


lemma append_to_keeps: "append_to name field x ds = Inr ds' \<Longrightarrow> keeps_stars ds ds'"
proof -
  assume a: "append_to name field x ds = Inr ds'"
  then obtain e where e: "ds name = Some e"
    by (cases "ds name") (simp_all add: append_to_def)
  from a e obtain xs where xs: "field_list name field ds = Inr xs"
    by (cases "field_list name field ds") (simp_all add: append_to_def)
  from a e xs have d: "ds' = ds(name \<mapsto> fmupd field (VList (xs @ [x])) e)"
    by (simp add: append_to_def)
  have l: "fmlookup e field = Some (VList xs)"
    using xs e by (simp add: field_list_def split: option.splits pyval.splits)
  have "starred e \<longrightarrow> starred (fmupd field (VList (xs @ [x])) e)"
  proof (cases "field = ''star''")
    case True
    with l show ?thesis by (simp add: starred_def)
  next
    case False
    then show ?thesis by (simp add: starred_fmupd_other)
  qed
  with e d show ?thesis by (simp add: keeps_stars_update_same)
qed

lemma dump_drivers_keeps: "dump_drivers fx ps ds = Inr ds' \<Longrightarrow> keeps_stars ds ds'"
proof (induction ps arbitrary: ds)
  case Nil
  then show ?case by (simp add: keeps_stars_refl)
next
  case (Cons p ps)
  obtain offset where o: "to_int fx p = Inr offset"
    using Cons.prems by (cases "to_int fx p") simp_all
  obtain name where n: "vol_moddump fx (offset + 0x7fe00000) = Inr name"
    using Cons.prems o by (cases "vol_moddump fx (offset + 0x7fe00000)") simp_all
  let ?x = "VDict (fmupd ''module_name'' name (fmupd ''module_base'' (VInt (offset + 0x7fe00000)) fmempty))"
  obtain ds1 where a: "append_to ''diff_moddump'' ''new'' ?x ds = Inr ds1"
    using Cons.prems o n by (cases "append_to ''diff_moddump'' ''new'' ?x ds") simp_all
  have r: "dump_drivers fx ps ds1 = Inr ds'" using Cons.prems o n a by simp
  from keeps_stars_trans[OF append_to_keeps[OF a] Cons.IH[OF r]] show ?case .
qed

lemma dump_hooks_keeps: "dump_hooks fx mhs ds = Inr ds' \<Longrightarrow> keeps_stars ds ds'"
proof (induction mhs arbitrary: ds)
  case Nil
  then show ?case by (simp add: keeps_stars_refl)
next
  case (Cons mh mhs)
  obtain thread where t: "subscript mh ''thread'' = Inr thread"
    using Cons.prems by (cases "subscript mh ''thread''") simp_all
  obtain pids where p: "find_pids fx thread = Inr pids"
    using Cons.prems t by (cases "find_pids fx thread") simp_all
  show ?case
  proof (cases pids)
    case Nil
    with Cons.prems t p have "dump_hooks fx mhs ds = Inr ds'" by simp
    from Cons.IH[OF this] show ?thesis .
  next
    case (Cons pid more_pids)
    note pc = Cons
    obtain module where m: "subscript mh ''module'' = Inr module"
      using Cons.prems t p pc by (cases "subscript mh ''module''") simp_all
    obtain mod_name where mn: "last_component fx module = Inr mod_name"
      using Cons.prems t p pc m by (cases "last_component fx module") simp_all
    obtain data where d: "vol_dlldump_regex fx pid mod_name = Inr data"
      using Cons.prems t p pc m mn by (cases "vol_dlldump_regex fx pid mod_name") simp_all
    show ?thesis
    proof (cases "data = VList []")
      case True
      with Cons.prems t p pc m mn d have "dump_hooks fx mhs ds = Inr ds'" by simp
      from Cons.IH[OF this] show ?thesis .
    next
      case False
      obtain first where f: "py_index data 0 = Inr first"
        using Cons.prems t p pc m mn d False by (cases "py_index data 0") simp_all
      obtain ds1 where a: "append_to ''injected_dll'' ''new'' first ds = Inr ds1"
        using Cons.prems t p pc m mn d False f
        by (cases "append_to ''injected_dll'' ''new'' first ds") simp_all
      obtain ds2 where st: "set_star ''injected_dll'' ds1 = Inr ds2"
        using Cons.prems t p pc m mn d False f a
        by (cases "set_star ''injected_dll'' ds1") simp_all
      have r: "dump_hooks fx mhs ds2 = Inr ds'"
        using Cons.prems t p pc m mn d False f a st by simp
      from keeps_stars_trans[OF append_to_keeps[OF a]
             keeps_stars_trans[OF set_star_keeps[OF st] Cons.IH[OF r]]]
      show ?thesis .
    qed
  qed
qed

lemma made_here_names: "made_here ''injected_dll''" "made_here ''injected_thread''"
  by (simp_all add: made_here_def)

lemma follow_monitorCPU_keeps: "follow_monitorCPU trigger ds = Inr ds' \<Longrightarrow> keeps_stars ds ds'"
  by (auto simp: follow_monitorCPU_def keeps_stars_refl set_star_keeps
      split: if_splits option.splits)

lemma follow_VirtualProtectEx_keeps:
  assumes "follow_VirtualProtectEx fx args ds = Inr ds'"
  shows "keeps_stars ds ds'"
proof -
  from assms obtain field found ds1 where
    a: "append_to ''diff_malfind'' field found ds = Inr ds1" and
    s: "set_star ''diff_malfind'' ds1 = Inr ds'"
    by (auto simp: follow_VirtualProtectEx_def Let_def
        split: sum.splits option.splits list.splits)
  from keeps_stars_trans[OF append_to_keeps[OF a] set_star_keeps[OF s]] show ?thesis .
qed

lemma follow_LoadLibrary_keeps:
  assumes "follow_LoadLibrary fx args ds = Inr ds'"
  shows "keeps_stars ds ds'"
proof -
  from assms obtain e where d: "ds' = ds(''injected_dll'' \<mapsto> e)" and e: "starred e"
    by (auto simp: follow_LoadLibrary_def starred_fmupd_star split: sum.splits)
  show ?thesis unfolding d
    by (rule keeps_stars_update_starred[OF e]) (simp add: made_here_names)
qed

lemma follow_ResumeThread_keeps:
  assumes "follow_ResumeThread fx args ds = Inr ds'"
  shows "keeps_stars ds ds'"
proof -
  from assms obtain e where d: "ds' = ds(''injected_thread'' \<mapsto> e)" and e: "starred e"
    by (auto simp: follow_ResumeThread_def starred_diff_entry split: sum.splits)
  show ?thesis unfolding d
    by (rule keeps_stars_update_starred[OF e]) (simp add: made_here_names)
qed

lemma follow_CreateRemoteThread_keeps:
  assumes "follow_CreateRemoteThread fx args ds = Inr ds'"
  shows "keeps_stars ds ds'"
proof -
  have st: "starred (fmupd ''disassembly'' v (diff_entry ''yes'' desc new))" for v desc new
    by (simp add: starred_fmupd_other starred_diff_entry)
  from assms obtain e where d: "ds' = ds(''injected_thread'' \<mapsto> e)" and e: "starred e"
    by (auto simp: follow_CreateRemoteThread_def st split: sum.splits)
  show ?thesis unfolding d
    by (rule keeps_stars_update_starred[OF e]) (simp add: made_here_names)
qed

lemma follow_up_keeps:
  assumes "follow_up fx trigger args ds = Inr ds'"
  shows "keeps_stars ds ds'"
  using assms
  by (auto simp: follow_up_def keeps_stars_refl dump_drivers_keeps dump_hooks_keeps
      follow_VirtualProtectEx_keeps follow_LoadLibrary_keeps follow_ResumeThread_keeps
      follow_CreateRemoteThread_keeps split: if_splits sum.splits option.splits)


lemma keeps_stars_SomeD:
  assumes "keeps_stars ds ds'" "ds p = Some e" "starred e"
  shows "\<exists>e'. ds' p = Some e' \<and> starred e'"
proof (cases "ds' p")
  case None
  with assms(1) have "ds p = None" unfolding keeps_stars_def by simp
  with assms(2) show ?thesis by simp
next
  case (Some e')
  with assms(1) have "(starred e' \<and> (ds p \<noteq> None \<or> made_here p))
           \<or> (\<exists>e. ds p = Some e \<and> (starred e \<longrightarrow> starred e'))"
    unfolding keeps_stars_def by simp
  with assms(2,3) have "starred e'" by auto
  with Some show ?thesis by simp
qed

lemma keeps_stars_NoneD:
  assumes "keeps_stars ds ds'" "ds p = None" "\<not> made_here p"
  shows "ds' p = None"
proof (cases "ds' p")
  case None
  then show ?thesis .
next
  case (Some e')
  with assms(1) have "(starred e' \<and> (ds p \<noteq> None \<or> made_here p))
           \<or> (\<exists>e. ds p = Some e \<and> (starred e \<longrightarrow> starred e'))"
    unfolding keeps_stars_def by simp
  with assms(2,3) show ?thesis by simp
qed

lemma star_plugins_keeps: "keeps_stars ds (star_plugins ps ds)"
proof (induction ps arbitrary: ds)
  case Nil
  show ?case by (simp add: keeps_stars_refl)
next
  case (Cons plugin ps)
  show ?case
  proof (cases "ds plugin")
    case None
    with Cons show ?thesis by simp
  next
    case (Some entry)
    have step: "keeps_stars ds (ds(plugin \<mapsto> fmupd ''star'' (VStr ''yes'') entry))"
      using Some by (simp add: keeps_stars_update_same starred_fmupd_star)
    have eq: "star_plugins (plugin # ps) ds
                = star_plugins ps (ds(plugin \<mapsto> fmupd ''star'' (VStr ''yes'') entry))"
      using Some by simp
    show ?thesis unfolding eq
      by (rule keeps_stars_trans[OF step Cons[of "ds(plugin \<mapsto> fmupd ''star'' (VStr ''yes'') entry)"]])
  qed
qed

lemma star_plugins_stars:
  "p \<in> set ps \<Longrightarrow> ds p = Some e \<Longrightarrow> \<exists>e'. star_plugins ps ds p = Some e' \<and> starred e'"
proof (induction ps arbitrary: ds e)
  case Nil
  then show ?case by simp
next
  case (Cons plugin ps)
  show ?case
  proof (cases "p = plugin")
    case True
    let ?ds1 = "ds(plugin \<mapsto> fmupd ''star'' (VStr ''yes'') e)"
    have l: "?ds1 p = Some (fmupd ''star'' (VStr ''yes'') e)" using True by simp
    have eq: "star_plugins (plugin # ps) ds = star_plugins ps ?ds1"
      using True Cons.prems(2) by simp
    show ?thesis unfolding eq
      by (rule keeps_stars_SomeD[OF star_plugins_keeps[of ?ds1 ps] l starred_fmupd_star])
  next
    case False
    then have mem: "p \<in> set ps" using Cons.prems(1) by simp
    show ?thesis
    proof (cases "ds plugin")
      case None
      then have eq: "star_plugins (plugin # ps) ds = star_plugins ps ds" by simp
      show ?thesis unfolding eq by (rule Cons.IH[of ds e, OF mem Cons.prems(2)])
    next
      case (Some entry)
      let ?ds1 = "ds(plugin \<mapsto> fmupd ''star'' (VStr ''yes'') entry)"
      have l: "?ds1 p = Some e" using False Cons.prems(2) by simp
      have eq: "star_plugins (plugin # ps) ds = star_plugins ps ?ds1" using Some by simp
      show ?thesis unfolding eq by (rule Cons.IH[of ?ds1 e, OF mem l])
    qed
  qed
qed

text \<open>
  C3, as the code has it. The pass is not the clean one, it ends without an exception,
  smart escalation is enabled for the trigger, and \<open>p\<close> is a facet of the trigger's list
  in \<open>TRIGGER_PLUGINS\<close>. If \<open>p\<close> has a diff entry when the escalation begins (it was
  enabled and diffed), or is one of the two entries this stage makes itself, then the
  pass ends with the entry of \<open>p\<close> marked \<open>star: "yes"\<close>. If \<open>p\<close> has no diff entry, it has
  none at the end either: nothing is marked.
\<close>

theorem smart_escalation_stars:
  assumes run: "escalate fx False trigger args ds = Inr ds'"
    and smart: "fst (parse_trigger_plugins fx trigger)"
    and listed: "TRIGGER_PLUGINS fx trigger = Some plugins" "p \<in> set plugins"
  shows "(ds p \<noteq> None \<or> p = ''injected_dll'' \<or> p = ''injected_thread''
            \<longrightarrow> (\<exists>e'. ds' p = Some e' \<and> fmlookup e' ''star'' = Some (VStr ''yes'')))
       \<and> (ds p = None \<and> p \<noteq> ''injected_dll'' \<and> p \<noteq> ''injected_thread'' \<longrightarrow> ds' p = None)"
proof -
  define ds2 where "ds2 = (ds(''injected_thread'' \<mapsto> diff_entry ''no'' ''Shows the injected thread'' []))
                            (''injected_dll'' \<mapsto> diff_entry ''no'' ''Finds the injected dll and dumps it'' [])"
  define ds3 where "ds3 = star_plugins plugins ds2"
  obtain x where pt: "parse_trigger_plugins fx trigger = (True, x)"
    using smart by (cases "parse_trigger_plugins fx trigger") simp
  from run pt listed(1) obtain ds4 where
    m: "follow_monitorCPU trigger ds3 = Inr ds4" and f: "follow_up fx trigger args ds4 = Inr ds'"
    by (auto simp: escalate_def Let_def ds2_def ds3_def split: sum.splits)
  have k: "keeps_stars ds3 ds'"
    by (rule keeps_stars_trans[OF follow_monitorCPU_keeps[OF m] follow_up_keeps[OF f]])
  have dom2: "ds2 p = None \<longleftrightarrow> ds p = None \<and> \<not> made_here p"
    by (auto simp: ds2_def made_here_def)
  have a: "\<exists>e'. ds' p = Some e' \<and> starred e'" if "ds p \<noteq> None \<or> made_here p"
  proof -
    from that dom2 obtain e where "ds2 p = Some e" by (cases "ds2 p") auto
    from star_plugins_stars[of p plugins ds2 e, OF listed(2) this] obtain e3 where
      "ds3 p = Some e3" "starred e3" unfolding ds3_def by auto
    from keeps_stars_SomeD[OF k this] show ?thesis .
  qed
  have b: "ds' p = None" if "ds p = None" "\<not> made_here p"
  proof -
    from that dom2 have "ds2 p = None" by simp
    then have "ds3 p = None"
      unfolding ds3_def by (rule keeps_stars_NoneD[OF star_plugins_keeps _ that(2)])
    from keeps_stars_NoneD[OF k this that(2)] show ?thesis .
  qed
  from a b show ?thesis unfolding starred_def made_here_def by simp
qed


lemma demo_forensics_fields:
  "parse_trigger_plugins (demo_forensics plugins) trigger = (True, [])"
  "TRIGGER_PLUGINS (demo_forensics plugins) trigger = Some plugins"
  by (simp_all add: parse_trigger_plugins_def demo_forensics_def)

lemma escalate_example:
  "escalate (demo_forensics [''diff_malfind'', ''diff_moddump'']) False ''socket'' fmempty
       [''diff_malfind'' \<mapsto> diff_entry ''no'' ''malfind'' []]
     = Inr [''injected_thread'' \<mapsto> diff_entry ''no'' ''Shows the injected thread'' [],
            ''injected_dll'' \<mapsto> diff_entry ''no'' ''Finds the injected dll and dumps it'' [],
            ''diff_malfind'' \<mapsto> fmupd ''star'' (VStr ''yes'') (diff_entry ''no'' ''malfind'' [])]"
  by (simp add: escalate_def demo_forensics_fields follow_monitorCPU_def follow_up_def)

theorem smart_escalation_stars_witness:
  "escalate (demo_forensics [''diff_malfind'', ''diff_moddump'']) False ''socket'' fmempty
       [''diff_malfind'' \<mapsto> diff_entry ''no'' ''malfind'' []]
     = Inr [''injected_thread'' \<mapsto> diff_entry ''no'' ''Shows the injected thread'' [],
            ''injected_dll'' \<mapsto> diff_entry ''no'' ''Finds the injected dll and dumps it'' [],
            ''diff_malfind'' \<mapsto> fmupd ''star'' (VStr ''yes'') (diff_entry ''no'' ''malfind'' [])]
   \<and> (\<exists>e'. [''injected_thread'' \<mapsto> diff_entry ''no'' ''Shows the injected thread'' [],
            ''injected_dll'' \<mapsto> diff_entry ''no'' ''Finds the injected dll and dumps it'' [],
            ''diff_malfind'' \<mapsto> fmupd ''star'' (VStr ''yes'') (diff_entry ''no'' ''malfind'' [])]
              ''diff_malfind'' = Some e'
          \<and> fmlookup e' ''star'' = Some (VStr ''yes''))
   \<and> [''injected_thread'' \<mapsto> diff_entry ''no'' ''Shows the injected thread'' [],
            ''injected_dll'' \<mapsto> diff_entry ''no'' ''Finds the injected dll and dumps it'' [],
            ''diff_malfind'' \<mapsto> fmupd ''star'' (VStr ''yes'') (diff_entry ''no'' ''malfind'' [])]
         ''diff_moddump'' = None"
proof -
  let ?fx = "demo_forensics [''diff_malfind'', ''diff_moddump'']"
  let ?ds = "[''diff_malfind'' \<mapsto> diff_entry ''no'' ''malfind'' []]"
  have smart: "fst (parse_trigger_plugins ?fx ''socket'')"
    by (simp add: demo_forensics_fields)
  have listed: "TRIGGER_PLUGINS ?fx ''socket'' = Some [''diff_malfind'', ''diff_moddump'']"
    by (rule demo_forensics_fields)
  have m1: "''diff_malfind'' \<in> set [''diff_malfind'', ''diff_moddump'']"
    and m2: "''diff_moddump'' \<in> set [''diff_malfind'', ''diff_moddump'']" by simp_all
  have h1: "?ds ''diff_malfind'' \<noteq> None \<or> ''diff_malfind'' = ''injected_dll''
              \<or> ''diff_malfind'' = ''injected_thread''" by simp
  have h2: "?ds ''diff_moddump'' = None \<and> ''diff_moddump'' \<noteq> ''injected_dll''
              \<and> ''diff_moddump'' \<noteq> ''injected_thread''" by simp
  note a = smart_escalation_stars[OF escalate_example smart listed m1, THEN conjunct1, rule_format, OF h1]
  note b = smart_escalation_stars[OF escalate_example smart listed m2, THEN conjunct2, rule_format, OF h2]
  from escalate_example a b show ?thesis by (intro conjI)
qed

text \<open>
  C3 as stated fails: smart escalation is enabled for \<open>socket\<close>, whose escalation list
  is \<open>diff_malfind\<close>; the facet was not diffed in this pass, and the pass ends with no
  entry for \<open>diff_malfind\<close>, so none marked \<open>star: "yes"\<close>.
\<close>

theorem unlisted_diff_not_starred:
  "fst (parse_trigger_plugins (demo_forensics [''diff_malfind'']) ''socket'')
   \<and> TRIGGER_PLUGINS (demo_forensics [''diff_malfind'']) ''socket'' = Some [''diff_malfind'']
   \<and> escalate (demo_forensics [''diff_malfind'']) False ''socket'' fmempty Map.empty
       = Inr [''injected_thread'' \<mapsto> diff_entry ''no'' ''Shows the injected thread'' [],
              ''injected_dll'' \<mapsto> diff_entry ''no'' ''Finds the injected dll and dumps it'' []]
   \<and> [''injected_thread'' \<mapsto> diff_entry ''no'' ''Shows the injected thread'' [],
       ''injected_dll'' \<mapsto> diff_entry ''no'' ''Finds the injected dll and dumps it'' []]
         ''diff_malfind'' = None"
  by (simp add: escalate_def demo_forensics_fields follow_monitorCPU_def follow_up_def)

end
